theory Spec2Isabelle
  imports Complex_Main "HOL-Library.Word"
begin

section \<open>Data model of main.go\<close>

text \<open>
  Conventions of the embedding.
  \<^item> Go's \<^verbatim>\<open>int\<close> is the 64-bit two's-complement integer of the usual platforms:
    \<open>64 word\<close>, whose \<open>+\<close> and \<open>-\<close> wrap around as Go's do; \<open>sint\<close> reads the
    signed value, and Go's comparisons on \<^verbatim>\<open>int\<close> are comparisons of \<open>sint\<close>.
  \<^item> Go's \<^verbatim>\<open>float64\<close> is idealised as \<open>real\<close>: rounding, infinities and NaN are
    not modelled. \<^verbatim>\<open>float64(n)\<close> for an \<^verbatim>\<open>int\<close> is \<open>real_of_int (sint n)\<close>.
  \<^item> A Go map is a reference to a mutable object. The store below holds the map
    objects by address; a \<^verbatim>\<open>Recipe\<close> holds the addresses of its two maps.
    Reading a missing key of a Go map yields the zero value of the value type.
  \<^item> A panic is a value \<open>Inl e\<close> of the result type \<open>panic + 'a\<close>.
\<close>

type_synonym goint = "64 word"

record Nutrient =
  id_n :: goint
  units :: string
  description_n :: string

record NutrientInFood =
  nutrient :: Nutrient
  amountPerG :: real

record Food =
  id_f :: goint
  foodGroup :: string
  description_f :: string
  manufacturer :: string
  nutrients :: "NutrientInFood list"

text \<open>The panics of the Recipe operations and of the search loop, by their message.\<close>

datatype panic =
    FoodNotInRecipe       \<comment> \<open>"Asked to remove food that is not in recipe"\<close>
  | MoreThanInRecipe      \<comment> \<open>"Asked to remove more food than is in recipe"\<close>
  | WorseThanBestEver     \<comment> \<open>"wtf": the round's best score exceeds the best score ever\<close>

text \<open>
  The spec's taxonomy: InvalidRemoval is either panic of RemoveFood;
  InternalConsistencyFault is the panic of the search loop.
\<close>

definition InvalidRemoval :: "panic \<Rightarrow> bool" where
  "InvalidRemoval e = (e = FoodNotInRecipe \<or> e = MoreThanInRecipe)"

definition InternalConsistencyFault :: "panic \<Rightarrow> bool" where
  "InternalConsistencyFault e = (e = WorseThanBestEver)"

definition bindP :: "panic + 'a \<Rightarrow> ('a \<Rightarrow> panic + 'b) \<Rightarrow> panic + 'b" where
  "bindP m f = (case m of Inl e \<Rightarrow> Inl e | Inr x \<Rightarrow> f x)"

section \<open>The penalty primitive\<close>

text \<open>
  \<^verbatim>\<open>calcPenalty(nutrientName, amount, min, max, verbose)\<close>, lines 359-386. The name
  and the verbose flag only drive printing and are dropped.
\<close>

definition calcPenalty :: "real \<Rightarrow> real \<Rightarrow> real \<Rightarrow> real" where
  "calcPenalty amount minimum maximum =
     (if amount < minimum then (minimum - amount) / minimum * 100
      else if maximum \<noteq> 0 then
        (let minMaxMidpoint = minimum + (maximum - minimum) / 2 in
         if amount < minMaxMidpoint then 0
         else (let overBy = amount - minMaxMidpoint in
               (overBy / (maximum - minMaxMidpoint)) * 100))
      else 0)"


section \<open>The store and the Recipe\<close>

text \<open>
  \<^verbatim>\<open>Recipe\<close> (lines 45-48) has two fields, each a reference to a map. The fields
  are assigned once, in \<^verbatim>\<open>NewRecipe\<close>; every later change goes through the map
  objects. The store holds the \<^verbatim>\<open>map[int]float64\<close> objects and the
  \<^verbatim>\<open>map[int]int\<close> objects by address, and the next address \<^verbatim>\<open>make\<close> hands out.
\<close>

type_synonym addr = nat

record Recipe =
  nutrientTotals :: addr
  foodQuantities :: addr

record store =
  totalsAt :: "addr \<Rightarrow> (goint \<rightharpoonup> real)"
  quantitiesAt :: "addr \<Rightarrow> (goint \<rightharpoonup> goint)"
  nextAddr :: addr

text \<open>Reading a Go map: the zero value for a missing key.\<close>

definition readFloat :: "('k \<rightharpoonup> real) \<Rightarrow> 'k \<Rightarrow> real" where
  "readFloat m k = (case m k of None \<Rightarrow> 0 | Some v \<Rightarrow> v)"

definition readId :: "(string \<rightharpoonup> goint) \<Rightarrow> string \<Rightarrow> goint" where
  "readId m k = (case m k of None \<Rightarrow> 0 | Some v \<Rightarrow> v)"

text \<open>
  \<^verbatim>\<open>AssertConsistency\<close>, lines 479-508: the whole body is inside a block comment, so
  a call runs nothing and cannot panic.
\<close>

definition AssertConsistency :: "(goint \<rightharpoonup> Food) \<Rightarrow> store \<Rightarrow> Recipe \<Rightarrow> panic + unit" where
  "AssertConsistency allFoods st recipe = Inr ()"

text \<open>
  \<^verbatim>\<open>NewRecipe\<close>, lines 390-401: two fresh maps; the loop stores 0 under every key of
  \<^verbatim>\<open>allNutrients\<close> (the order of a range over a map does not matter here: each
  pass writes its own key).
\<close>

definition NewRecipe ::
  "(goint \<rightharpoonup> Food) \<Rightarrow> (goint \<rightharpoonup> Nutrient) \<Rightarrow> store \<Rightarrow> panic + (store \<times> Recipe)" where
  "NewRecipe allFoods allNutrients st =
     (let recipe = \<lparr>nutrientTotals = nextAddr st, foodQuantities = nextAddr st + 1\<rparr>;
          st1 = st\<lparr>totalsAt := (totalsAt st)
                      (nutrientTotals recipe := (\<lambda>nutrientId. map_option (\<lambda>_. 0) (allNutrients nutrientId))),
                   quantitiesAt := (quantitiesAt st)(foodQuantities recipe := Map.empty),
                   nextAddr := nextAddr st + 2\<rparr>
      in bindP (AssertConsistency allFoods st1 recipe) (\<lambda>_. Inr (st1, recipe)))"

text \<open>\<^verbatim>\<open>HasFood\<close>, lines 425-428.\<close>

definition HasFood :: "store \<Rightarrow> Recipe \<Rightarrow> Food \<Rightarrow> bool" where
  "HasFood st recipe food = (quantitiesAt st (foodQuantities recipe) (id_f food) \<noteq> None)"

text \<open>
  The loop of lines 441-446 over the slice \<^verbatim>\<open>food.nutrients\<close>:
  \<^verbatim>\<open>recipe.nutrientTotals[nutrientId] += amountAdded\<close> reads the entry (0 when the key
  is missing) and stores the sum.
\<close>

fun addNutrients :: "(goint \<rightharpoonup> real) \<Rightarrow> NutrientInFood list \<Rightarrow> goint \<Rightarrow> (goint \<rightharpoonup> real)" where
  "addNutrients totals [] quantityToAdd = totals"
| "addNutrients totals (nutrientInFood # others) quantityToAdd =
     (let nutrientId = id_n (nutrient nutrientInFood);
          amountAdded = amountPerG nutrientInFood * real_of_int (sint quantityToAdd)
      in addNutrients (totals(nutrientId \<mapsto> readFloat totals nutrientId + amountAdded))
           others quantityToAdd)"

text \<open>\<^verbatim>\<open>AddFood\<close>, lines 430-448. There is no check on \<^verbatim>\<open>quantityToAdd\<close>.\<close>

definition AddFood :: "(goint \<rightharpoonup> Food) \<Rightarrow> store \<Rightarrow> Recipe \<Rightarrow> Food \<Rightarrow> goint \<Rightarrow> panic + store" where
  "AddFood allFoods st recipe food quantityToAdd =
     bindP (AssertConsistency allFoods st recipe) (\<lambda>_.
       let quantities = quantitiesAt st (foodQuantities recipe);
           quantities1 =
             (case quantities (id_f food) of
                Some originalQuantity \<Rightarrow> quantities(id_f food \<mapsto> originalQuantity + quantityToAdd)
              | None \<Rightarrow> quantities(id_f food \<mapsto> quantityToAdd));
           totals1 = addNutrients (totalsAt st (nutrientTotals recipe)) (nutrients food) quantityToAdd;
           st1 = st\<lparr>totalsAt := (totalsAt st)(nutrientTotals recipe := totals1),
                    quantitiesAt := (quantitiesAt st)(foodQuantities recipe := quantities1)\<rparr>
       in bindP (AssertConsistency allFoods st1 recipe) (\<lambda>_. Inr st1))"

text \<open>The loop of lines 469-474.\<close>

fun removeNutrients :: "(goint \<rightharpoonup> real) \<Rightarrow> NutrientInFood list \<Rightarrow> goint \<Rightarrow> (goint \<rightharpoonup> real)" where
  "removeNutrients totals [] quantityToRemove = totals"
| "removeNutrients totals (nutrientInFood # others) quantityToRemove =
     (let nutrientId = id_n (nutrient nutrientInFood);
          amountRemoved = amountPerG nutrientInFood * real_of_int (sint quantityToRemove)
      in removeNutrients (totals(nutrientId \<mapsto> readFloat totals nutrientId - amountRemoved))
           others quantityToRemove)"

text \<open>\<^verbatim>\<open>RemoveFood\<close>, lines 450-477; \<^verbatim>\<open>delete\<close> removes the key.\<close>

definition RemoveFood :: "(goint \<rightharpoonup> Food) \<Rightarrow> store \<Rightarrow> Recipe \<Rightarrow> Food \<Rightarrow> goint \<Rightarrow> panic + store" where
  "RemoveFood allFoods st recipe food quantityToRemove =
     bindP (AssertConsistency allFoods st recipe) (\<lambda>_.
       let quantities = quantitiesAt st (foodQuantities recipe) in
       case quantities (id_f food) of
         None \<Rightarrow> Inl FoodNotInRecipe
       | Some originalQuantity \<Rightarrow>
           if sint originalQuantity < sint quantityToRemove then Inl MoreThanInRecipe
           else
             let quantities1 =
                   (if quantityToRemove = originalQuantity then quantities(id_f food := None)
                    else (let newQuantity = originalQuantity - quantityToRemove
                          in quantities(id_f food \<mapsto> newQuantity)));
                 totals1 = removeNutrients (totalsAt st (nutrientTotals recipe)) (nutrients food)
                             quantityToRemove;
                 st1 = st\<lparr>totalsAt := (totalsAt st)(nutrientTotals recipe := totals1),
                          quantitiesAt := (quantitiesAt st)(foodQuantities recipe := quantities1)\<rparr>
             in bindP (AssertConsistency allFoods st1 recipe) (\<lambda>_. Inr st1))"

text \<open>
  \<^verbatim>\<open>Clone\<close>, lines 510-526: a new recipe from \<^verbatim>\<open>NewRecipe\<close>, then every entry of
  the two maps of \<^verbatim>\<open>recipe\<close> is stored into the maps of the new one (\<open>++\<close> lets
  the copied entries override the zeros \<^verbatim>\<open>NewRecipe\<close> stored).
\<close>

definition Clone ::
  "(goint \<rightharpoonup> Food) \<Rightarrow> (goint \<rightharpoonup> Nutrient) \<Rightarrow> store \<Rightarrow> Recipe \<Rightarrow> panic + (store \<times> Recipe)" where
  "Clone allFoods allNutrients st recipe =
     bindP (AssertConsistency allFoods st recipe) (\<lambda>_.
     bindP (NewRecipe allFoods allNutrients st) (\<lambda>(st1, newRecipe).
       let st2 = st1\<lparr>quantitiesAt := (quantitiesAt st1)
                        (foodQuantities newRecipe :=
                           quantitiesAt st1 (foodQuantities newRecipe)
                             ++ quantitiesAt st1 (foodQuantities recipe))\<rparr>;
           st3 = st2\<lparr>totalsAt := (totalsAt st2)
                        (nutrientTotals newRecipe :=
                           totalsAt st2 (nutrientTotals newRecipe)
                             ++ totalsAt st2 (nutrientTotals recipe))\<rparr>
       in bindP (AssertConsistency allFoods st3 newRecipe) (\<lambda>_. Inr (st3, newRecipe))))"

text \<open>A sequence of mutations of one recipe; a panic ends the run.\<close>

datatype mutation = Add Food goint | Remove Food goint

fun mutate :: "(goint \<rightharpoonup> Food) \<Rightarrow> store \<Rightarrow> Recipe \<Rightarrow> mutation \<Rightarrow> panic + store" where
  "mutate allFoods st recipe (Add food grams) = AddFood allFoods st recipe food grams"
| "mutate allFoods st recipe (Remove food grams) = RemoveFood allFoods st recipe food grams"

fun mutateAll :: "(goint \<rightharpoonup> Food) \<Rightarrow> store \<Rightarrow> Recipe \<Rightarrow> mutation list \<Rightarrow> panic + store" where
  "mutateAll allFoods st recipe [] = Inr st"
| "mutateAll allFoods st recipe (m # ms) =
     bindP (mutate allFoods st recipe m) (\<lambda>st1. mutateAll allFoods st1 recipe ms)"

section \<open>The score\<close>

text \<open>\<^verbatim>\<open>calculatePenaltyForNutrient\<close>, lines 528-534.\<close>

definition calculatePenaltyForNutrient ::
  "store \<Rightarrow> Recipe \<Rightarrow> (string \<rightharpoonup> goint) \<Rightarrow> string \<Rightarrow> real \<Rightarrow> real \<Rightarrow> real" where
  "calculatePenaltyForNutrient st recipe nutrientNameToId nutrientName minimum maximum =
     (let nutrientId = readId nutrientNameToId nutrientName;
          amount = readFloat (totalsAt st (nutrientTotals recipe)) nutrientId
      in calcPenalty amount minimum maximum)"

text \<open>
  The 39 calls of lines 604-724, in their order: nutrient name, min, max
  (0 for no max).
\<close>

definition targets :: "(string \<times> real \<times> real) list" where
  "targets =
    [(''Total lipid (fat)'', 60, 300),
     (''Energy, kcal'', 2700, 10000),
     (''Protein'', 101.5, 3510),
     (''Fiber, total dietary'', 38, 0),
     (''Calcium, Ca'', 1000, 2500),
     (''Iron, Fe'', 8, 45),
     (''Magnesium, Mg'', 400, 0),
     (''Phosphorus, P'', 700, 4000),
     (''Potassium, K'', 4700, 0),
     (''Sodium, Na'', 1500, 2300),
     (''Zinc, Zn'', 11, 40),
     (''Copper, Cu'', 0.9, 10),
     (''Manganese, Mn'', 2.3, 11),
     (''Selenium, Se'', 55, 400),
     (''Vitamin A, RAE'', 900, 1500),
     (''Vitamin E (alpha-tocopherol)'', 15, 1000),
     (''Lutein + zeaxanthin'', 12000, 0),
     (''Vitamin C, total ascorbic acid'', 90, 2000),
     (''Thiamin'', 1.2, 0),
     (''Riboflavin'', 1.3, 0),
     (''Niacin'', 16, 35),
     (''Pantothenic acid'', 5, 0),
     (''Vitamin B-6'', 1.3, 100),
     (''Vitamin B-12'', 2.4, 0),
     (''Choline, total'', 550, 3500),
     (''Vitamin K (phylloquinone)'', 120, 0),
     (''Lysine'', 1.95, 0),
     (''Leucine'', 2.535, 0),
     (''Methionine'', 0.65, 0),
     (''Cystine'', 0.26, 0),
     (''Valine'', 1.69, 0),
     (''Histidine'', 0.65, 0),
     (''Tryptophan'', 0.26, 0),
     (''Threonine'', 0.975, 0),
     (''Isoleucine'', 1.3, 0),
     (''18:3 n-3 c,c,c (ALA)'', 1.6, 0),
     (''20:5 n-3 (EPA)'', 1.6, 0),
     (''22:6 n-3 (DHA)'', 1.6, 0),
     (''Water'', 946, 0)]"

definition targetPenalties :: "store \<Rightarrow> Recipe \<Rightarrow> (string \<rightharpoonup> goint) \<Rightarrow> real list" where
  "targetPenalties st recipe nutrientNameToId =
     map (\<lambda>(nutrientName, minimum, maximum).
            calculatePenaltyForNutrient st recipe nutrientNameToId nutrientName minimum maximum)
         targets"

text \<open>Lines 726-732: phenylalanine and tyrosine together, min 1.625, no max.\<close>

definition phenylalanineTyrosinePenalty :: "store \<Rightarrow> Recipe \<Rightarrow> (string \<rightharpoonup> goint) \<Rightarrow> real" where
  "phenylalanineTyrosinePenalty st recipe nutrientNameToId =
     (let totals = totalsAt st (nutrientTotals recipe);
          amountPhenylalanine =
            (case totals (readId nutrientNameToId ''Phenylalanine'') of
               Some v \<Rightarrow> v | None \<Rightarrow> 0);
          amountTyrosine =
            (case totals (readId nutrientNameToId ''Tyrosine'') of
               Some v \<Rightarrow> v | None \<Rightarrow> 0);
          pt = amountPhenylalanine + amountTyrosine
      in calcPenalty pt 1.625 0)"

text \<open>Lines 734-739: folate DFE, min 400, max 1000.\<close>

definition folatePenalty :: "store \<Rightarrow> Recipe \<Rightarrow> (string \<rightharpoonup> goint) \<Rightarrow> real" where
  "folatePenalty st recipe nutrientNameToId =
     (let totals = totalsAt st (nutrientTotals recipe);
          foodFolate = readFloat totals (readId nutrientNameToId ''Folate, food'');
          folicAcid = readFloat totals (readId nutrientNameToId ''Folic acid'');
          folateDFE = foodFolate + (1.7 * folicAcid)
      in calcPenalty folateDFE 400 1000)"

text \<open>Lines 741-746: caffeine above 20 adds the amount less 5.\<close>

definition caffeinePenalty :: "store \<Rightarrow> Recipe \<Rightarrow> (string \<rightharpoonup> goint) \<Rightarrow> real" where
  "caffeinePenalty st recipe nutrientNameToId =
     (let caffeine = readFloat (totalsAt st (nutrientTotals recipe))
                       (readId nutrientNameToId ''Caffeine'')
      in if 20 < caffeine then caffeine - 5 else 0)"

text \<open>Lines 748-749: the total of dihydrophylloquinone is added as it is.\<close>

definition dihydrophylloquinonePenalty :: "store \<Rightarrow> Recipe \<Rightarrow> (string \<rightharpoonup> goint) \<Rightarrow> real" where
  "dihydrophylloquinonePenalty st recipe nutrientNameToId =
     readFloat (totalsAt st (nutrientTotals recipe)) (readId nutrientNameToId ''Dihydrophylloquinone'')"

text \<open>
  Lines 751-760: the loop counts the entries of \<^verbatim>\<open>foodQuantities\<close> whose grams
  are not 0. A Go map has finitely many entries; the count is that of the key set.
\<close>

definition numFoodsPenalty :: "store \<Rightarrow> Recipe \<Rightarrow> real" where
  "numFoodsPenalty st recipe =
     (let quantities = quantitiesAt st (foodQuantities recipe);
          numFoods = card {foodId \<in> dom quantities. quantities foodId \<noteq> Some 0}
      in min (real numFoods / 100) 1 * 10)"

text \<open>
  Lines 762-769: the loop adds up the grams in an \<^verbatim>\<open>int\<close>, so the sum wraps as
  \<open>+\<close> on \<open>goint\<close> does, and is converted to \<^verbatim>\<open>float64\<close> afterwards.
\<close>

definition massPenalty :: "store \<Rightarrow> Recipe \<Rightarrow> real" where
  "massPenalty st recipe =
     (let quantities = quantitiesAt st (foodQuantities recipe);
          totalMass = (\<Sum>foodId \<in> dom quantities. the (quantities foodId)) :: goint
      in min (real_of_int (sint totalMass) / 3000) 1 * 10)"

text \<open>
  \<^verbatim>\<open>Score\<close>, lines 537-772, without the printing that \<^verbatim>\<open>verbose\<close> turns on.
  \<^verbatim>\<open>penalty\<close> starts at 0 and each term is added in the order of the source.
\<close>

definition Score ::
  "(goint \<rightharpoonup> Nutrient) \<Rightarrow> (goint \<rightharpoonup> Food) \<Rightarrow> (string \<rightharpoonup> goint) \<Rightarrow> store \<Rightarrow> Recipe \<Rightarrow> panic + real" where
  "Score allNutrients allFoods nutrientNameToId st recipe =
     bindP (AssertConsistency allFoods st recipe) (\<lambda>_.
       Inr (0 + sum_list (targetPenalties st recipe nutrientNameToId)
              + phenylalanineTyrosinePenalty st recipe nutrientNameToId
              + folatePenalty st recipe nutrientNameToId
              + caffeinePenalty st recipe nutrientNameToId
              + dihydrophylloquinonePenalty st recipe nutrientNameToId
              + numFoodsPenalty st recipe
              + massPenalty st recipe))"

section \<open>The search loop of main\<close>

definition STEPSIZE :: goint where
  "STEPSIZE = 5"

text \<open>
  Lines 820-831, the trial removal of one food. The state of a round is the store, the
  best recipe of this round (\<open>None\<close> for Go's nil) and the best score of this round.
\<close>

definition tryRemoving ::
  "(goint \<rightharpoonup> Nutrient) \<Rightarrow> (goint \<rightharpoonup> Food) \<Rightarrow> (string \<rightharpoonup> goint) \<Rightarrow> Recipe \<Rightarrow> Food
     \<Rightarrow> store \<times> Recipe option \<times> real \<Rightarrow> panic + (store \<times> Recipe option \<times> real)" where
  "tryRemoving allNutrients allFoods nutrientNameToId currentRecipe food state =
     (case state of (st, bestRecipeThisRound, bestScoreThisRound) \<Rightarrow>
        if HasFood st currentRecipe food then
          bindP (RemoveFood allFoods st currentRecipe food STEPSIZE) (\<lambda>st1.
          bindP (Score allNutrients allFoods nutrientNameToId st1 currentRecipe) (\<lambda>newScore.
          bindP (if newScore < bestScoreThisRound
                 then bindP (Clone allFoods allNutrients st1 currentRecipe)
                        (\<lambda>(st2, copy). Inr (st2, Some copy, newScore))
                 else Inr (st1, bestRecipeThisRound, bestScoreThisRound))
            (\<lambda>(st2, bestRecipe1, bestScore1).
          bindP (AddFood allFoods st2 currentRecipe food STEPSIZE) (\<lambda>st3.
            Inr (st3, bestRecipe1, bestScore1)))))
        else Inr (st, bestRecipeThisRound, bestScoreThisRound))"

text \<open>Lines 835-844, the trial addition.\<close>

definition tryAdding ::
  "(goint \<rightharpoonup> Nutrient) \<Rightarrow> (goint \<rightharpoonup> Food) \<Rightarrow> (string \<rightharpoonup> goint) \<Rightarrow> Recipe \<Rightarrow> Food
     \<Rightarrow> store \<times> Recipe option \<times> real \<Rightarrow> panic + (store \<times> Recipe option \<times> real)" where
  "tryAdding allNutrients allFoods nutrientNameToId currentRecipe food state =
     (case state of (st, bestRecipeThisRound, bestScoreThisRound) \<Rightarrow>
        bindP (AddFood allFoods st currentRecipe food STEPSIZE) (\<lambda>st1.
        bindP (Score allNutrients allFoods nutrientNameToId st1 currentRecipe) (\<lambda>newScore.
        bindP (if newScore < bestScoreThisRound
               then bindP (Clone allFoods allNutrients st1 currentRecipe)
                      (\<lambda>(st2, copy). Inr (st2, Some copy, newScore))
               else Inr (st1, bestRecipeThisRound, bestScoreThisRound))
          (\<lambda>(st2, bestRecipe1, bestScore1).
        bindP (RemoveFood allFoods st2 currentRecipe food STEPSIZE) (\<lambda>st3.
          Inr (st3, bestRecipe1, bestScore1))))))"

text \<open>
  The loop of lines 811-845 over \<^verbatim>\<open>allFoods\<close>. Go leaves the order of a range over
  a map open, so the foods come as a list in the order the run happened to take.
\<close>

fun tryFoods ::
  "(goint \<rightharpoonup> Nutrient) \<Rightarrow> (goint \<rightharpoonup> Food) \<Rightarrow> (string \<rightharpoonup> goint) \<Rightarrow> Recipe \<Rightarrow> Food list
     \<Rightarrow> store \<times> Recipe option \<times> real \<Rightarrow> panic + (store \<times> Recipe option \<times> real)" where
  "tryFoods allNutrients allFoods nutrientNameToId currentRecipe [] state = Inr state"
| "tryFoods allNutrients allFoods nutrientNameToId currentRecipe (food # foods) state =
     bindP (tryRemoving allNutrients allFoods nutrientNameToId currentRecipe food state) (\<lambda>state1.
     bindP (tryAdding allNutrients allFoods nutrientNameToId currentRecipe food state1) (\<lambda>state2.
       tryFoods allNutrients allFoods nutrientNameToId currentRecipe foods state2))"

text \<open>
  Lines 847-870, the end of a round: \<open>Inr None\<close> is the break at "Reached local
  maxima", \<open>Inr (Some (r, s))\<close> the new best recipe ever and its score.
\<close>

definition endOfRound :: "Recipe option \<Rightarrow> real \<Rightarrow> real \<Rightarrow> panic + (Recipe \<times> real) option" where
  "endOfRound bestRecipeThisRound bestScoreThisRound bestScoreEver =
     (case bestRecipeThisRound of
        None \<Rightarrow> Inr None
      | Some r \<Rightarrow>
          if bestScoreEver < bestScoreThisRound then Inl WorseThanBestEver
          else Inr (Some (r, bestScoreThisRound)))"

text \<open>
  One pass of the body of the loop of lines 799-871: the clone, the scan of the foods
  and the end of the round.
\<close>

definition searchRound ::
  "(goint \<rightharpoonup> Nutrient) \<Rightarrow> (goint \<rightharpoonup> Food) \<Rightarrow> (string \<rightharpoonup> goint) \<Rightarrow> Food list
     \<Rightarrow> store \<Rightarrow> Recipe \<Rightarrow> real \<Rightarrow> panic + (store \<times> (Recipe \<times> real) option)" where
  "searchRound allNutrients allFoods nutrientNameToId foods st bestRecipeEver bestScoreEver =
     bindP (Clone allFoods allNutrients st bestRecipeEver) (\<lambda>(st1, currentRecipe).
     bindP (tryFoods allNutrients allFoods nutrientNameToId currentRecipe foods
              (st1, None, bestScoreEver))
       (\<lambda>(st2, bestRecipeThisRound, bestScoreThisRound).
     bindP (endOfRound bestRecipeThisRound bestScoreThisRound bestScoreEver)
       (\<lambda>adopted. Inr (st2, adopted))))"

text \<open>
  The loop of lines 799-871. It may run for ever, so it runs on a list that holds,
  for each round still allowed, the order in which that round ranges over the foods;
  \<open>OutOfRounds\<close> says the list ended first. The result carries the values
  \<^verbatim>\<open>bestScoreEver\<close> took, oldest first.
\<close>

datatype outcome =
    Panicked panic
  | LocalMaxima store Recipe real
  | ScoreNotPositive store Recipe real
  | OutOfRounds store Recipe real

fun mainLoop ::
  "(goint \<rightharpoonup> Nutrient) \<Rightarrow> (goint \<rightharpoonup> Food) \<Rightarrow> (string \<rightharpoonup> goint) \<Rightarrow> Food list list
     \<Rightarrow> store \<Rightarrow> Recipe \<Rightarrow> real \<Rightarrow> real list \<times> outcome" where
  "mainLoop allNutrients allFoods nutrientNameToId [] st bestRecipeEver bestScoreEver =
     ([bestScoreEver],
      if 0 < bestScoreEver then OutOfRounds st bestRecipeEver bestScoreEver
      else ScoreNotPositive st bestRecipeEver bestScoreEver)"
| "mainLoop allNutrients allFoods nutrientNameToId (foods # rounds) st bestRecipeEver bestScoreEver =
     (if 0 < bestScoreEver then
        (case searchRound allNutrients allFoods nutrientNameToId foods st bestRecipeEver bestScoreEver of
           Inl e \<Rightarrow> ([bestScoreEver], Panicked e)
         | Inr (st2, None) \<Rightarrow> ([bestScoreEver], LocalMaxima st2 bestRecipeEver bestScoreEver)
         | Inr (st2, Some (r, s)) \<Rightarrow>
             (case mainLoop allNutrients allFoods nutrientNameToId rounds st2 r s of
                (scores, result) \<Rightarrow> (bestScoreEver # scores, result)))
      else ([bestScoreEver], ScoreNotPositive st bestRecipeEver bestScoreEver))"

section \<open>Notions of the specification\<close>

text \<open>
  The amount per gram a list of entries gives for one nutrient id: the sum over its
  entries for that id (the catalog has one entry per food and nutrient; the loops of
  AddFood and RemoveFood add up whatever entries there are).
\<close>

definition perGram :: "NutrientInFood list \<Rightarrow> goint \<Rightarrow> real" where
  "perGram entries nutrientId =
     sum_list (map amountPerG (filter (\<lambda>nif. id_n (nutrient nif) = nutrientId) entries))"

text \<open>\<^verbatim>\<open>amountPerGram(foodId, id)\<close> of the spec, for the catalog's entry of the food.\<close>

definition amountPerGram :: "Food option \<Rightarrow> goint \<Rightarrow> real" where
  "amountPerGram food nutrientId =
     (case food of None \<Rightarrow> 0 | Some f \<Rightarrow> perGram (nutrients f) nutrientId)"

text \<open>
  The spec's invariant: the sum over all \<open>(foodId, grams)\<close> of the quantities of
  \<open>grams * amountPerGram(foodId, id)\<close>.
\<close>

definition sumOverQuantities :: "(goint \<rightharpoonup> Food) \<Rightarrow> (goint \<rightharpoonup> goint) \<Rightarrow> goint \<Rightarrow> real" where
  "sumOverQuantities allFoods quantities nutrientId =
     (\<Sum>foodId \<in> dom quantities.
        real_of_int (sint (the (quantities foodId))) * amountPerGram (allFoods foodId) nutrientId)"







text \<open>A recipe is allocated when \<^verbatim>\<open>make\<close> has handed out both of its maps.\<close>

definition allocated :: "store \<Rightarrow> Recipe \<Rightarrow> bool" where
  "allocated st recipe =
     (nutrientTotals recipe < nextAddr st \<and> foodQuantities recipe < nextAddr st)"

section \<open>A small catalog for the examples\<close>

definition emptyStore :: store where
  "emptyStore = \<lparr>totalsAt = (\<lambda>_. Map.empty), quantitiesAt = (\<lambda>_. Map.empty), nextAddr = 0\<rparr>"

definition water :: Nutrient where
  "water = \<lparr>id_n = 255, units = ''g'', description_n = ''Water''\<rparr>"

definition melon :: Food where
  "melon = \<lparr>id_f = 9326, foodGroup = ''0900'', description_f = ''Watermelon, raw'',
             manufacturer = [], nutrients = [\<lparr>nutrient = water, amountPerG = 1\<rparr>]\<rparr>"

text \<open>
  The recipe \<^verbatim>\<open>NewRecipe\<close> makes in the empty store, and a store where it holds
  10 g of melon.
\<close>

definition firstRecipe :: Recipe where
  "firstRecipe = \<lparr>nutrientTotals = 0, foodQuantities = 1\<rparr>"

definition tenGrams :: store where
  "tenGrams = \<lparr>totalsAt = (\<lambda>_. Map.empty)(0 := [255 \<mapsto> 10]),
                quantitiesAt = (\<lambda>_. Map.empty)(1 := [9326 \<mapsto> 10]), nextAddr = 2\<rparr>"

section \<open>Notions for the search\<close>

text \<open>
  The state of a round against the best score ever: no candidate yet and the round's
  best score is the best ever, or a candidate whose score is below the best ever.
\<close>

definition improving :: "real \<Rightarrow> store \<times> Recipe option \<times> real \<Rightarrow> bool" where
  "improving bestScoreEver state =
     (case state of (st, bestRecipeThisRound, bestScoreThisRound) \<Rightarrow>
        (bestRecipeThisRound = None \<and> bestScoreThisRound = bestScoreEver)
        \<or> (bestRecipeThisRound \<noteq> None \<and> bestScoreThisRound < bestScoreEver))"

text \<open>What an operation leaves alone: every map but the two of its recipe.\<close>

definition sameElsewhere :: "Recipe \<Rightarrow> store \<Rightarrow> store \<Rightarrow> bool" where
  "sameElsewhere recipe st st1 =
     (nextAddr st1 = nextAddr st
      \<and> (\<forall>a. a \<noteq> nutrientTotals recipe \<longrightarrow> totalsAt st1 a = totalsAt st a)
      \<and> (\<forall>a. a \<noteq> foodQuantities recipe \<longrightarrow> quantitiesAt st1 a = quantitiesAt st a))"

text \<open>
  Every stored quantity is a multiple of the step size, at least the step size, and at
  most the bound.
\<close>

definition stepSized :: "int \<Rightarrow> (goint \<rightharpoonup> goint) \<Rightarrow> bool" where
  "stepSized bound quantities =
     (\<forall>foodId q. quantities foodId = Some q \<longrightarrow>
        sint STEPSIZE \<le> sint q \<and> sint STEPSIZE dvd sint q \<and> sint q \<le> bound)"

text \<open>
  What a trial on the working recipe leaves alone: the quantities of every map that was
  there before, but its own.
\<close>

definition quantitiesKept :: "Recipe \<Rightarrow> store \<Rightarrow> store \<Rightarrow> bool" where
  "quantitiesKept currentRecipe st st1 =
     (nextAddr st \<le> nextAddr st1
      \<and> (\<forall>a < nextAddr st. a \<noteq> foodQuantities currentRecipe \<longrightarrow>
            quantitiesAt st1 a = quantitiesAt st a))"

text \<open>
  The best recipe of this round, when there is one, is allocated, is not the working
  recipe, and is step-sized.
\<close>

definition candidateOK :: "int \<Rightarrow> Recipe \<Rightarrow> store \<Rightarrow> Recipe option \<Rightarrow> bool" where
  "candidateOK bound currentRecipe st bestRecipeThisRound =
     (case bestRecipeThisRound of
        None \<Rightarrow> True
      | Some c \<Rightarrow> allocated st c \<and> foodQuantities c \<noteq> foodQuantities currentRecipe
                  \<and> stepSized bound (quantitiesAt st (foodQuantities c)))"

text \<open>The search did not panic and its best recipe is step-sized.\<close>

fun safeOutcome :: "int \<Rightarrow> outcome \<Rightarrow> bool" where
  "safeOutcome bound (Panicked e) = False"
| "safeOutcome bound (LocalMaxima st r s) = stepSized bound (quantitiesAt st (foodQuantities r))"
| "safeOutcome bound (ScoreNotPositive st r s) = stepSized bound (quantitiesAt st (foodQuantities r))"
| "safeOutcome bound (OutOfRounds st r s) = stepSized bound (quantitiesAt st (foodQuantities r))"

text \<open>
  What a trial on the working recipe leaves alone: both maps of every recipe that was
  there before, but its own.
\<close>

definition mapsKept :: "Recipe \<Rightarrow> store \<Rightarrow> store \<Rightarrow> bool" where
  "mapsKept currentRecipe st st1 =
     (nextAddr st \<le> nextAddr st1
      \<and> (\<forall>a < nextAddr st. a \<noteq> nutrientTotals currentRecipe \<longrightarrow> totalsAt st1 a = totalsAt st a)
      \<and> (\<forall>a < nextAddr st. a \<noteq> foodQuantities currentRecipe \<longrightarrow>
            quantitiesAt st1 a = quantitiesAt st a))"

text \<open>
  The best recipe of this round, when there is one, is allocated, shares no map with the
  working recipe, and scores the best score of this round.
\<close>

definition scored ::
  "(goint \<rightharpoonup> Nutrient) \<Rightarrow> (goint \<rightharpoonup> Food) \<Rightarrow> (string \<rightharpoonup> goint) \<Rightarrow> Recipe
     \<Rightarrow> store \<times> Recipe option \<times> real \<Rightarrow> bool" where
  "scored allNutrients allFoods nutrientNameToId currentRecipe state =
     (case state of (st, bestRecipeThisRound, bestScoreThisRound) \<Rightarrow>
        (case bestRecipeThisRound of
           None \<Rightarrow> True
         | Some c \<Rightarrow>
             allocated st c
             \<and> nutrientTotals c \<noteq> nutrientTotals currentRecipe
             \<and> foodQuantities c \<noteq> foodQuantities currentRecipe
             \<and> Score allNutrients allFoods nutrientNameToId st c = Inr bestScoreThisRound))"

text \<open>Where the search ends without a panic, the best score is the score of the best recipe.\<close>

fun scoredOutcome ::
  "(goint \<rightharpoonup> Nutrient) \<Rightarrow> (goint \<rightharpoonup> Food) \<Rightarrow> (string \<rightharpoonup> goint) \<Rightarrow> outcome \<Rightarrow> bool" where
  "scoredOutcome allNutrients allFoods nutrientNameToId (Panicked e) = True"
| "scoredOutcome allNutrients allFoods nutrientNameToId (LocalMaxima st r s) =
     (Score allNutrients allFoods nutrientNameToId st r = Inr s)"
| "scoredOutcome allNutrients allFoods nutrientNameToId (ScoreNotPositive st r s) =
     (Score allNutrients allFoods nutrientNameToId st r = Inr s)"
| "scoredOutcome allNutrients allFoods nutrientNameToId (OutOfRounds st r s) =
     (Score allNutrients allFoods nutrientNameToId st r = Inr s)"

text \<open>The store after \<^verbatim>\<open>NewRecipe\<close> in the empty store, for the catalog of the examples.\<close>

definition afterNew :: store where
  "afterNew = \<lparr>totalsAt = (\<lambda>_. Map.empty)(0 := [255 \<mapsto> 0]),
                quantitiesAt = (\<lambda>_. Map.empty)(1 := Map.empty), nextAddr = 2\<rparr>"

section \<open>Properties\<close>

subsection \<open>Facts about the operations\<close>

lemma bindP_Inr [simp]: "bindP (Inr x) f = f x"
  by (simp add: bindP_def)

lemma bindP_Inl [simp]: "bindP (Inl e) f = Inl e"
  by (simp add: bindP_def)

lemmas example_defs = NewRecipe_def AddFood_def RemoveFood_def AssertConsistency_def Let_def
  melon_def water_def emptyStore_def firstRecipe_def tenGrams_def readFloat_def
  sumOverQuantities_def amountPerGram_def perGram_def

lemma readFloat_addNutrients:
  "readFloat (addNutrients totals entries g) n
     = readFloat totals n + real_of_int (sint g) * perGram entries n"
proof (induction entries arbitrary: totals)
  case Nil
  show ?case by (simp add: perGram_def)
next
  case (Cons a entries)
  show ?case
    by (simp add: Let_def Cons.IH) (simp add: readFloat_def perGram_def algebra_simps)
qed

lemma readFloat_removeNutrients:
  "readFloat (removeNutrients totals entries g) n
     = readFloat totals n - real_of_int (sint g) * perGram entries n"
proof (induction entries arbitrary: totals)
  case Nil
  show ?case by (simp add: perGram_def)
next
  case (Cons a entries)
  show ?case
    by (simp add: Let_def Cons.IH) (simp add: readFloat_def perGram_def algebra_simps)
qed

text \<open>Where \<open>+\<close> and \<open>-\<close> on \<open>goint\<close> do not wrap.\<close>

lemma sint_sub_no_wrap:
  fixes q g :: goint
  assumes "0 \<le> sint g" "sint g \<le> sint q"
  shows "sint (q - g) = sint q - sint g"
proof -
  have "sint q < 2 ^ 63" using sint_lt [of q] by simp
  with assms have "- (2 ^ 63) \<le> sint q - sint g" "sint q - sint g < 2 ^ 63" by simp_all
  then show ?thesis by (simp add: sint_word_diff signed_take_bit_int_eq_self)
qed

lemma sint_add_no_wrap:
  fixes q g :: goint
  assumes "0 \<le> sint g" "sint q + sint g < 2 ^ 63"
  shows "sint (q + g) = sint q + sint g"
proof -
  have "- (2 ^ 63) \<le> sint q" using sint_ge [of q] by simp
  with assms have "- (2 ^ 63) \<le> sint q + sint g" by simp
  with assms show ?thesis by (simp add: sint_word_add signed_take_bit_int_eq_self)
qed








lemmas score_defs = Score_def targetPenalties_def targets_def calculatePenaltyForNutrient_def
  readId_def calcPenalty_def phenylalanineTyrosinePenalty_def folatePenalty_def caffeinePenalty_def
  dihydrophylloquinonePenalty_def numFoodsPenalty_def massPenalty_def

lemmas search_defs = searchRound_def tryRemoving_def tryAdding_def endOfRound_def Clone_def
  HasFood_def STEPSIZE_def afterNew_def

text \<open>The new recipe.\<close>

lemma readFloat_NewRecipe:
  assumes "NewRecipe allFoods allNutrients st = Inr (st0, recipe)"
  shows "readFloat (totalsAt st0 (nutrientTotals recipe)) n = 0"
    and "quantitiesAt st0 (foodQuantities recipe) = Map.empty"
  using assms
  by (auto simp: NewRecipe_def AssertConsistency_def Let_def readFloat_def split: option.splits)

lemma calcPenalty_nothing: "0 < minimum \<Longrightarrow> calcPenalty 0 minimum maximum = 100"
  by (simp add: calcPenalty_def)

lemma NewRecipe_example:
  "NewRecipe [9326 \<mapsto> melon] [255 \<mapsto> water] emptyStore = Inr (afterNew, firstRecipe)"
  by (auto simp: NewRecipe_def AssertConsistency_def Let_def emptyStore_def afterNew_def firstRecipe_def
      fun_eq_iff)

lemma phenylalanineTyrosinePenalty_readFloat:
  "phenylalanineTyrosinePenalty st recipe nutrientNameToId =
     calcPenalty (readFloat (totalsAt st (nutrientTotals recipe)) (readId nutrientNameToId ''Phenylalanine'')
                  + readFloat (totalsAt st (nutrientTotals recipe)) (readId nutrientNameToId ''Tyrosine''))
       1.625 0"
  by (simp add: phenylalanineTyrosinePenalty_def readFloat_def Let_def)

text \<open>What an operation leaves alone, and what Clone returns.\<close>

lemma sameElsewhere_refl: "sameElsewhere recipe st st"
  by (simp add: sameElsewhere_def)

lemma sameElsewhere_trans:
  "sameElsewhere recipe st st1 \<Longrightarrow> sameElsewhere recipe st1 st2 \<Longrightarrow> sameElsewhere recipe st st2"
  by (simp add: sameElsewhere_def)

lemma AddFood_sameElsewhere:
  "AddFood allFoods st recipe food grams = Inr st1 \<Longrightarrow> sameElsewhere recipe st st1"
  by (auto simp: AddFood_def AssertConsistency_def Let_def sameElsewhere_def)

lemma RemoveFood_sameElsewhere:
  "RemoveFood allFoods st recipe food grams = Inr st1 \<Longrightarrow> sameElsewhere recipe st st1"
  by (auto simp: RemoveFood_def AssertConsistency_def Let_def sameElsewhere_def
      split: option.splits if_splits)

lemma mutate_sameElsewhere:
  "mutate allFoods st recipe m = Inr st1 \<Longrightarrow> sameElsewhere recipe st st1"
  by (cases m) (auto intro: AddFood_sameElsewhere RemoveFood_sameElsewhere)

lemma mutateAll_sameElsewhere:
  "mutateAll allFoods st recipe ms = Inr st1 \<Longrightarrow> sameElsewhere recipe st st1"
proof (induction ms arbitrary: st)
  case Nil
  then show ?case by (simp add: sameElsewhere_refl)
next
  case (Cons m ms)
  from Cons.prems obtain st' where step: "mutate allFoods st recipe m = Inr st'"
    and rest: "mutateAll allFoods st' recipe ms = Inr st1"
    by (cases "mutate allFoods st recipe m") auto
  from mutate_sameElsewhere [OF step] Cons.IH [OF rest] show ?case
    by (rule sameElsewhere_trans)
qed

lemma Clone_result:
  assumes "Clone allFoods allNutrients st recipe = Inr (st1, copy)"
  shows "copy = \<lparr>nutrientTotals = nextAddr st, foodQuantities = nextAddr st + 1\<rparr>"
    and "nextAddr st1 = nextAddr st + 2"
    and "\<forall>a. a \<noteq> nextAddr st \<longrightarrow> totalsAt st1 a = totalsAt st a"
    and "\<forall>a. a \<noteq> nextAddr st + 1 \<longrightarrow> quantitiesAt st1 a = quantitiesAt st a"
    and "foodQuantities recipe \<noteq> nextAddr st + 1 \<Longrightarrow>
           quantitiesAt st1 (foodQuantities copy) = quantitiesAt st (foodQuantities recipe)"
    and "nutrientTotals recipe \<noteq> nextAddr st \<Longrightarrow>
           totalsAt st1 (nutrientTotals copy) =
             (\<lambda>nutrientId. map_option (\<lambda>_. 0) (allNutrients nutrientId))
               ++ totalsAt st (nutrientTotals recipe)"
  using assms
  by (auto simp: Clone_def NewRecipe_def AssertConsistency_def Let_def)

lemma readFloat_zeros_add:
  "readFloat ((\<lambda>nutrientId. map_option (\<lambda>_. 0) (allNutrients nutrientId)) ++ totals) n
     = readFloat totals n"
  by (simp add: readFloat_def map_add_def split: option.splits)

text \<open>The best score of a round only goes down.\<close>

lemma tryRemoving_improving:
  assumes "tryRemoving allNutrients allFoods nutrientNameToId currentRecipe food state = Inr state1"
      and "improving bestScoreEver state"
  shows "improving bestScoreEver state1"
proof -
  obtain st b s where state: "state = (st, b, s)" by (cases state) auto
  show ?thesis
  proof (cases "HasFood st currentRecipe food")
    case False
    with assms state show ?thesis by (simp add: tryRemoving_def)
  next
    case True
    with assms(1) state obtain st1 newScore st2 b1 s1 st3 where
      "RemoveFood allFoods st currentRecipe food STEPSIZE = Inr st1"
      "Score allNutrients allFoods nutrientNameToId st1 currentRecipe = Inr newScore"
      and pick: "(if newScore < s
            then bindP (Clone allFoods allNutrients st1 currentRecipe)
                   (\<lambda>(st2, copy). Inr (st2, Some copy, newScore))
            else Inr (st1, b, s)) = Inr (st2, b1, s1)"
      and "AddFood allFoods st2 currentRecipe food STEPSIZE = Inr st3"
      and res: "state1 = (st3, b1, s1)"
      by (auto simp: tryRemoving_def bindP_def split: sum.splits if_splits prod.splits)
    from pick have "(b1 = b \<and> s1 = s) \<or> (b1 \<noteq> None \<and> s1 < s)"
      by (auto simp: bindP_def split: if_splits sum.splits prod.splits)
    with assms(2) state res show ?thesis
      by (auto simp: improving_def)
  qed
qed

lemma tryAdding_improving:
  assumes "tryAdding allNutrients allFoods nutrientNameToId currentRecipe food state = Inr state1"
      and "improving bestScoreEver state"
  shows "improving bestScoreEver state1"
proof -
  obtain st b s where state: "state = (st, b, s)" by (cases state) auto
  from assms(1) state obtain st1 newScore st2 b1 s1 st3 where
    "AddFood allFoods st currentRecipe food STEPSIZE = Inr st1"
    "Score allNutrients allFoods nutrientNameToId st1 currentRecipe = Inr newScore"
    and pick: "(if newScore < s
          then bindP (Clone allFoods allNutrients st1 currentRecipe)
                 (\<lambda>(st2, copy). Inr (st2, Some copy, newScore))
          else Inr (st1, b, s)) = Inr (st2, b1, s1)"
    and "RemoveFood allFoods st2 currentRecipe food STEPSIZE = Inr st3"
    and res: "state1 = (st3, b1, s1)"
    by (auto simp: tryAdding_def bindP_def split: sum.splits if_splits prod.splits)
  from pick have "(b1 = b \<and> s1 = s) \<or> (b1 \<noteq> None \<and> s1 < s)"
    by (auto simp: bindP_def split: if_splits sum.splits prod.splits)
  with assms(2) state res show ?thesis
    by (auto simp: improving_def)
qed

lemma tryFoods_improving:
  assumes "tryFoods allNutrients allFoods nutrientNameToId currentRecipe foods state = Inr state1"
      and "improving bestScoreEver state"
  shows "improving bestScoreEver state1"
  using assms
proof (induction foods arbitrary: state)
  case Nil
  then show ?case by simp
next
  case (Cons food foods)
  from Cons.prems(1) obtain sa sb where
    a: "tryRemoving allNutrients allFoods nutrientNameToId currentRecipe food state = Inr sa"
    and b: "tryAdding allNutrients allFoods nutrientNameToId currentRecipe food sa = Inr sb"
    and c: "tryFoods allNutrients allFoods nutrientNameToId currentRecipe foods sb = Inr state1"
    by (auto simp: bindP_def split: sum.splits)
  from tryAdding_improving [OF b tryRemoving_improving [OF a Cons.prems(2)]]
  show ?case by (rule Cons.IH [OF c])
qed

lemma searchRound_adopts_better:
  assumes "searchRound allNutrients allFoods nutrientNameToId foods st bestRecipeEver bestScoreEver
             = Inr (st2, Some (r, s))"
  shows "s < bestScoreEver"
proof -
  from assms obtain st1 currentRecipe b s' where
    "Clone allFoods allNutrients st bestRecipeEver = Inr (st1, currentRecipe)"
    and scan: "tryFoods allNutrients allFoods nutrientNameToId currentRecipe foods
                 (st1, None, bestScoreEver) = Inr (st2, b, s')"
    and fin: "endOfRound b s' bestScoreEver = Inr (Some (r, s))"
    by (auto simp: searchRound_def bindP_def split: sum.splits prod.splits)
  have "improving bestScoreEver (st1, None, bestScoreEver)" by (simp add: improving_def)
  from tryFoods_improving [OF scan this] fin show ?thesis
    by (auto simp: improving_def endOfRound_def split: option.splits if_splits)
qed

lemma mainLoop_scores:
  "sorted_wrt (\<lambda>earlier later. later < earlier)
     (fst (mainLoop allNutrients allFoods nutrientNameToId rounds st bestRecipeEver bestScoreEver))
   \<and> (\<forall>s \<in> set (fst (mainLoop allNutrients allFoods nutrientNameToId rounds st bestRecipeEver
                         bestScoreEver)). s \<le> bestScoreEver)"
proof (induction rounds arbitrary: st bestRecipeEver bestScoreEver)
  case Nil
  show ?case by simp
next
  case (Cons foods rounds)
  show ?case
  proof (cases "searchRound allNutrients allFoods nutrientNameToId foods st bestRecipeEver bestScoreEver")
    case (Inl e)
    then show ?thesis by simp
  next
    case (Inr res)
    obtain st2 adopted where res: "res = (st2, adopted)" by (cases res) auto
    show ?thesis
    proof (cases adopted)
      case None
      with Inr res show ?thesis by simp
    next
      case (Some rs)
      obtain r s where rs: "rs = (r, s)" by (cases rs) auto
      from Inr res Some rs have lt: "s < bestScoreEver"
        by (auto intro: searchRound_adopts_better)
      obtain scores result where
        ml: "mainLoop allNutrients allFoods nutrientNameToId rounds st2 r s = (scores, result)"
        by (cases "mainLoop allNutrients allFoods nutrientNameToId rounds st2 r s") auto
      from Cons.IH [of st2 r s] ml
      have srt: "sorted_wrt (\<lambda>earlier later. later < earlier) scores"
        and bnd: "\<forall>x \<in> set scores. x \<le> s" by simp_all
      from bnd lt have below: "\<forall>x \<in> set scores. x < bestScoreEver" by fastforce
      then have "\<forall>x \<in> set scores. x \<le> bestScoreEver" by fastforce
      with srt below Inr res Some rs ml show ?thesis by simp
    qed
  qed
qed

text \<open>Trials of one step on a step-sized recipe.\<close>

lemma quantitiesKept_refl: "quantitiesKept r st st"
  by (simp add: quantitiesKept_def)

lemma quantitiesKept_trans:
  "quantitiesKept r st st1 \<Longrightarrow> quantitiesKept r st1 st2 \<Longrightarrow> quantitiesKept r st st2"
  by (auto simp: quantitiesKept_def)

lemma sameElsewhere_quantitiesKept: "sameElsewhere r st st1 \<Longrightarrow> quantitiesKept r st st1"
  by (simp add: sameElsewhere_def quantitiesKept_def)

lemma stepSized_mono: "stepSized b q \<Longrightarrow> b \<le> b' \<Longrightarrow> stepSized b' q"
  by (fastforce simp: stepSized_def)

lemma allocated_mono: "allocated st r \<Longrightarrow> nextAddr st \<le> nextAddr st1 \<Longrightarrow> allocated st1 r"
  by (simp add: allocated_def)

lemma candidateOK_kept:
  assumes "candidateOK b cur st c" and "quantitiesKept cur st st1"
  shows "candidateOK b cur st1 c"
  using assms
  by (auto simp: candidateOK_def quantitiesKept_def allocated_def split: option.splits)

lemma AddFood_returns:
  "\<exists>st1. AddFood allFoods st recipe food grams = Inr st1
     \<and> sameElsewhere recipe st st1
     \<and> quantitiesAt st1 (foodQuantities recipe) =
          (case quantitiesAt st (foodQuantities recipe) (id_f food) of
             Some originalQuantity \<Rightarrow>
               (quantitiesAt st (foodQuantities recipe))(id_f food \<mapsto> originalQuantity + grams)
           | None \<Rightarrow> (quantitiesAt st (foodQuantities recipe))(id_f food \<mapsto> grams))"
  by (simp add: AddFood_def AssertConsistency_def Let_def sameElsewhere_def)

lemma RemoveFood_returns:
  assumes "quantitiesAt st (foodQuantities recipe) (id_f food) = Some q"
      and "sint grams \<le> sint q"
  shows "\<exists>st1. RemoveFood allFoods st recipe food grams = Inr st1
     \<and> sameElsewhere recipe st st1
     \<and> quantitiesAt st1 (foodQuantities recipe) =
          (if grams = q then (quantitiesAt st (foodQuantities recipe))(id_f food := None)
           else (quantitiesAt st (foodQuantities recipe))(id_f food \<mapsto> q - grams))"
  using assms
  by (simp add: RemoveFood_def AssertConsistency_def Let_def sameElsewhere_def)

lemma Score_returns: "\<exists>s. Score allNutrients allFoods nutrientNameToId st recipe = Inr s"
  by (simp add: Score_def AssertConsistency_def)

lemma Clone_returns:
  assumes "allocated st recipe"
  shows "\<exists>st1 copy. Clone allFoods allNutrients st recipe = Inr (st1, copy)
     \<and> allocated st1 copy
     \<and> foodQuantities copy \<noteq> foodQuantities recipe
     \<and> quantitiesAt st1 (foodQuantities copy) = quantitiesAt st (foodQuantities recipe)
     \<and> quantitiesAt st1 (foodQuantities recipe) = quantitiesAt st (foodQuantities recipe)
     \<and> quantitiesKept recipe st st1"
  using assms
  by (auto simp: Clone_def NewRecipe_def AssertConsistency_def Let_def allocated_def quantitiesKept_def)

lemma stepSized_facts:
  assumes "stepSized b quantities" and "quantities k = Some q"
  shows "5 \<le> sint q" and "5 dvd sint q" and "sint q \<le> b"
  using assms by (auto simp: stepSized_def STEPSIZE_def)

lemma stepSized_remove:
  assumes sz: "stepSized b quantities" and q: "quantities k = Some q"
  shows "stepSized b (if STEPSIZE = q then quantities(k := None) else quantities(k \<mapsto> q - STEPSIZE))"
proof (cases "STEPSIZE = q")
  case True
  with sz show ?thesis by (auto simp: stepSized_def)
next
  case False
  from stepSized_facts [OF sz q] have f: "5 \<le> sint q" "5 dvd sint q" "sint q \<le> b" .
  have "sint q \<noteq> 5"
  proof
    assume "sint q = 5"
    then have "word_of_int (sint q) = (word_of_int 5 :: goint)" by simp
    then have "q = 5" by simp
    with False show False by (simp add: STEPSIZE_def)
  qed
  with f have ten: "10 \<le> sint q" by presburger
  have s: "sint (q - STEPSIZE) = sint q - 5"
    using sint_sub_no_wrap [of STEPSIZE q] f by (simp add: STEPSIZE_def)
  from f ten have "5 \<le> sint q - 5 \<and> 5 dvd sint q - 5 \<and> sint q - 5 \<le> b" by presburger
  with sz False s show ?thesis by (auto simp: stepSized_def STEPSIZE_def)
qed

lemma remove_then_add_map:
  fixes quantities :: "goint \<rightharpoonup> goint"
  assumes "quantities k = Some q"
  shows "(case (if g = q then quantities(k := None) else quantities(k \<mapsto> q - g)) k of
            Some originalQuantity \<Rightarrow>
              (if g = q then quantities(k := None) else quantities(k \<mapsto> q - g))
                (k \<mapsto> originalQuantity + g)
          | None \<Rightarrow> (if g = q then quantities(k := None) else quantities(k \<mapsto> q - g))(k \<mapsto> g))
         = quantities"
  using assms by (auto simp: fun_eq_iff algebra_simps)

lemma tryRemoving_safe:
  assumes alloc: "allocated st cur"
      and sz: "stepSized b (quantitiesAt st (foodQuantities cur))"
      and cand: "candidateOK (b + 5) cur st best"
  shows "\<exists>st' best' s'.
           tryRemoving allNutrients allFoods nutrientNameToId cur food (st, best, s) = Inr (st', best', s')
           \<and> quantitiesAt st' (foodQuantities cur) = quantitiesAt st (foodQuantities cur)
           \<and> quantitiesKept cur st st'
           \<and> candidateOK (b + 5) cur st' best'"
proof (cases "HasFood st cur food")
  case False
  with cand show ?thesis by (simp add: tryRemoving_def quantitiesKept_refl)
next
  case True
  let ?Q = "quantitiesAt st (foodQuantities cur)"
  let ?Q1 = "if STEPSIZE = q then (?Q)(id_f food := None) else (?Q)(id_f food \<mapsto> q - STEPSIZE)"
  from True obtain q where q: "?Q (id_f food) = Some q" by (auto simp: HasFood_def)
  from stepSized_facts(1) [OF sz q] have le: "sint STEPSIZE \<le> sint q" by (simp add: STEPSIZE_def)
  from RemoveFood_returns [OF q le, of allFoods] obtain st1 where
    rm: "RemoveFood allFoods st cur food STEPSIZE = Inr st1"
    and se1: "sameElsewhere cur st st1"
    and q1: "quantitiesAt st1 (foodQuantities cur) =
               (if STEPSIZE = q then (?Q)(id_f food := None) else (?Q)(id_f food \<mapsto> q - STEPSIZE))"
    by blast
  from se1 have k1: "quantitiesKept cur st st1" by (rule sameElsewhere_quantitiesKept)
  from alloc k1 have alloc1: "allocated st1 cur" by (auto simp: quantitiesKept_def intro: allocated_mono)
  have sz1: "stepSized b (quantitiesAt st1 (foodQuantities cur))"
    unfolding q1 by (rule stepSized_remove [OF sz q])
  obtain newScore where sc: "Score allNutrients allFoods nutrientNameToId st1 cur = Inr newScore"
    using Score_returns by blast
  obtain st2 best' s' where
    pick: "(if newScore < s
            then bindP (Clone allFoods allNutrients st1 cur) (\<lambda>(st2, copy). Inr (st2, Some copy, newScore))
            else Inr (st1, best, s)) = Inr (st2, best', s')"
    and q2: "quantitiesAt st2 (foodQuantities cur) = quantitiesAt st1 (foodQuantities cur)"
    and k2: "quantitiesKept cur st1 st2"
    and cand2: "candidateOK (b + 5) cur st2 best'"
  proof (cases "newScore < s")
    case False
    with candidateOK_kept [OF cand k1] that [of st1 best s] show ?thesis
      by (simp add: quantitiesKept_refl)
  next
    case True
    from Clone_returns [OF alloc1, of allFoods allNutrients] obtain sc2 copy where
      cl: "Clone allFoods allNutrients st1 cur = Inr (sc2, copy)"
      and "allocated sc2 copy" "foodQuantities copy \<noteq> foodQuantities cur"
      and "quantitiesAt sc2 (foodQuantities copy) = quantitiesAt st1 (foodQuantities cur)"
      and "quantitiesAt sc2 (foodQuantities cur) = quantitiesAt st1 (foodQuantities cur)"
      and "quantitiesKept cur st1 sc2"
      by blast
    with True sz1 stepSized_mono [of b _ "b + 5"] that [of sc2 "Some copy" newScore] show ?thesis
      by (simp add: candidateOK_def)
  qed
  from AddFood_returns [of allFoods st2 cur food STEPSIZE] obtain st3 where
    ad: "AddFood allFoods st2 cur food STEPSIZE = Inr st3"
    and se3: "sameElsewhere cur st2 st3"
    and q3: "quantitiesAt st3 (foodQuantities cur) =
          (case quantitiesAt st2 (foodQuantities cur) (id_f food) of
             Some originalQuantity \<Rightarrow>
               (quantitiesAt st2 (foodQuantities cur))(id_f food \<mapsto> originalQuantity + STEPSIZE)
           | None \<Rightarrow> (quantitiesAt st2 (foodQuantities cur))(id_f food \<mapsto> STEPSIZE))"
    by blast
  from se3 have k3: "quantitiesKept cur st2 st3" by (rule sameElsewhere_quantitiesKept)
  have restored: "quantitiesAt st3 (foodQuantities cur) = ?Q"
    unfolding q3 q2 q1 using q by (rule remove_then_add_map [of ?Q "id_f food" q STEPSIZE])
  have kept: "quantitiesKept cur st st3"
    using k1 k2 k3 by (blast intro: quantitiesKept_trans)
  have res: "tryRemoving allNutrients allFoods nutrientNameToId cur food (st, best, s) = Inr (st3, best', s')"
    using True rm sc pick ad by (simp add: tryRemoving_def)
  from res restored kept candidateOK_kept [OF cand2 k3] show ?thesis by blast
qed

lemma add_then_remove_map:
  fixes quantities :: "goint \<rightharpoonup> goint"
  assumes "quantities k = None \<or> (\<exists>q. quantities k = Some q \<and> q \<noteq> 0)"
  shows "(let added = (case quantities k of
                         Some originalQuantity \<Rightarrow> quantities(k \<mapsto> originalQuantity + g)
                       | None \<Rightarrow> quantities(k \<mapsto> g))
          in if g = the (added k) then added(k := None) else added(k \<mapsto> the (added k) - g))
         = quantities"
  using assms by (auto simp: fun_eq_iff Let_def algebra_simps)

lemma stepSized_add:
  assumes sz: "stepSized b quantities" and nn: "0 \<le> b" and room: "b + 5 < 2 ^ 63"
  shows "stepSized (b + 5)
           (case quantities k of
              Some originalQuantity \<Rightarrow> quantities(k \<mapsto> originalQuantity + STEPSIZE)
            | None \<Rightarrow> quantities(k \<mapsto> STEPSIZE))"
proof (cases "quantities k")
  case None
  with sz nn show ?thesis by (fastforce simp: stepSized_def STEPSIZE_def)
next
  case (Some q)
  from stepSized_facts [OF sz Some] have f: "5 \<le> sint q" "5 dvd sint q" "sint q \<le> b" .
  with room have s: "sint (q + STEPSIZE) = sint q + 5"
    using sint_add_no_wrap [of STEPSIZE q] by (simp add: STEPSIZE_def)
  from f have "5 \<le> sint q + 5 \<and> 5 dvd sint q + 5 \<and> sint q + 5 \<le> b + 5" by presburger
  with sz Some s show ?thesis by (fastforce simp: stepSized_def STEPSIZE_def)
qed

lemma tryAdding_safe:
  assumes alloc: "allocated st cur"
      and sz: "stepSized b (quantitiesAt st (foodQuantities cur))"
      and cand: "candidateOK (b + 5) cur st best"
      and nn: "0 \<le> b" and room: "b + 5 < 2 ^ 63"
  shows "\<exists>st' best' s'.
           tryAdding allNutrients allFoods nutrientNameToId cur food (st, best, s) = Inr (st', best', s')
           \<and> quantitiesAt st' (foodQuantities cur) = quantitiesAt st (foodQuantities cur)
           \<and> quantitiesKept cur st st'
           \<and> candidateOK (b + 5) cur st' best'"
proof -
  let ?Q = "quantitiesAt st (foodQuantities cur)"
  let ?Q1 = "case ?Q (id_f food) of
               Some originalQuantity \<Rightarrow> (?Q)(id_f food \<mapsto> originalQuantity + STEPSIZE)
             | None \<Rightarrow> (?Q)(id_f food \<mapsto> STEPSIZE)"
  from AddFood_returns [of allFoods st cur food STEPSIZE] obtain st1 where
    ad: "AddFood allFoods st cur food STEPSIZE = Inr st1"
    and se1: "sameElsewhere cur st st1"
    and q1: "quantitiesAt st1 (foodQuantities cur) = ?Q1"
    by blast
  from se1 have k1: "quantitiesKept cur st st1" by (rule sameElsewhere_quantitiesKept)
  from alloc k1 have alloc1: "allocated st1 cur" by (auto simp: quantitiesKept_def intro: allocated_mono)
  have sz1: "stepSized (b + 5) (quantitiesAt st1 (foodQuantities cur))"
    unfolding q1 by (rule stepSized_add [OF sz nn room])
  obtain newScore where sc: "Score allNutrients allFoods nutrientNameToId st1 cur = Inr newScore"
    using Score_returns by blast
  obtain st2 best' s' where
    pick: "(if newScore < s
            then bindP (Clone allFoods allNutrients st1 cur) (\<lambda>(st2, copy). Inr (st2, Some copy, newScore))
            else Inr (st1, best, s)) = Inr (st2, best', s')"
    and q2: "quantitiesAt st2 (foodQuantities cur) = quantitiesAt st1 (foodQuantities cur)"
    and k2: "quantitiesKept cur st1 st2"
    and cand2: "candidateOK (b + 5) cur st2 best'"
  proof (cases "newScore < s")
    case False
    with candidateOK_kept [OF cand k1] that [of st1 best s] show ?thesis
      by (simp add: quantitiesKept_refl)
  next
    case True
    from Clone_returns [OF alloc1, of allFoods allNutrients] obtain sc2 copy where
      cl: "Clone allFoods allNutrients st1 cur = Inr (sc2, copy)"
      and "allocated sc2 copy" "foodQuantities copy \<noteq> foodQuantities cur"
      and "quantitiesAt sc2 (foodQuantities copy) = quantitiesAt st1 (foodQuantities cur)"
      and "quantitiesAt sc2 (foodQuantities cur) = quantitiesAt st1 (foodQuantities cur)"
      and "quantitiesKept cur st1 sc2"
      by blast
    with True sz1 that [of sc2 "Some copy" newScore] show ?thesis
      by (simp add: candidateOK_def)
  qed
  obtain q1v where e1: "?Q1 (id_f food) = Some q1v" and v: "q1v = the (?Q1 (id_f food))"
    by (cases "?Q (id_f food)") auto
  from sz1 e1 have le: "sint STEPSIZE \<le> sint q1v"
    unfolding q1 by (auto simp: stepSized_def)
  from e1 q1 q2 have e2: "quantitiesAt st2 (foodQuantities cur) (id_f food) = Some q1v" by simp
  from RemoveFood_returns [OF e2 le, of allFoods] obtain st3 where
    rm: "RemoveFood allFoods st2 cur food STEPSIZE = Inr st3"
    and se3: "sameElsewhere cur st2 st3"
    and q3: "quantitiesAt st3 (foodQuantities cur) =
               (if STEPSIZE = q1v then (quantitiesAt st2 (foodQuantities cur))(id_f food := None)
                else (quantitiesAt st2 (foodQuantities cur))(id_f food \<mapsto> q1v - STEPSIZE))"
    by blast
  from se3 have k3: "quantitiesKept cur st2 st3" by (rule sameElsewhere_quantitiesKept)
  have nz: "?Q (id_f food) = None \<or> (\<exists>q. ?Q (id_f food) = Some q \<and> q \<noteq> 0)"
  proof (cases "?Q (id_f food)")
    case None
    then show ?thesis by simp
  next
    case (Some q)
    from stepSized_facts(1) [OF sz Some] have "q \<noteq> 0" by auto
    with Some show ?thesis by simp
  qed
  have restored: "quantitiesAt st3 (foodQuantities cur) = ?Q"
    unfolding q3 q2 q1 v
    using add_then_remove_map [of ?Q "id_f food" STEPSIZE] nz by (simp add: Let_def)
  have kept: "quantitiesKept cur st st3"
    using k1 k2 k3 by (blast intro: quantitiesKept_trans)
  have res: "tryAdding allNutrients allFoods nutrientNameToId cur food (st, best, s) = Inr (st3, best', s')"
    using ad sc pick rm by (simp add: tryAdding_def)
  from res restored kept candidateOK_kept [OF cand2 k3] show ?thesis by blast
qed

lemma tryFoods_safe:
  assumes alloc: "allocated st cur"
      and sz: "stepSized b (quantitiesAt st (foodQuantities cur))"
      and cand: "candidateOK (b + 5) cur st best"
      and nn: "0 \<le> b" and room: "b + 5 < 2 ^ 63"
  shows "\<exists>st' best' s'.
           tryFoods allNutrients allFoods nutrientNameToId cur foods (st, best, s) = Inr (st', best', s')
           \<and> quantitiesAt st' (foodQuantities cur) = quantitiesAt st (foodQuantities cur)
           \<and> quantitiesKept cur st st'
           \<and> candidateOK (b + 5) cur st' best'"
  using alloc sz cand
proof (induction foods arbitrary: st best s)
  case Nil
  then show ?case by (simp add: quantitiesKept_refl)
next
  case (Cons food foods)
  from tryRemoving_safe [OF Cons.prems, of allNutrients allFoods nutrientNameToId food s]
  obtain sa ba xa where
    a: "tryRemoving allNutrients allFoods nutrientNameToId cur food (st, best, s) = Inr (sa, ba, xa)"
    and qa: "quantitiesAt sa (foodQuantities cur) = quantitiesAt st (foodQuantities cur)"
    and ka: "quantitiesKept cur st sa" and ca: "candidateOK (b + 5) cur sa ba"
    by blast
  from Cons.prems(1) ka have alloca: "allocated sa cur"
    by (auto simp: quantitiesKept_def intro: allocated_mono)
  from Cons.prems(2) qa have sza: "stepSized b (quantitiesAt sa (foodQuantities cur))" by simp
  from tryAdding_safe [OF alloca sza ca nn room, of allNutrients allFoods nutrientNameToId food xa]
  obtain sb bb xb where
    b: "tryAdding allNutrients allFoods nutrientNameToId cur food (sa, ba, xa) = Inr (sb, bb, xb)"
    and qb: "quantitiesAt sb (foodQuantities cur) = quantitiesAt sa (foodQuantities cur)"
    and kb: "quantitiesKept cur sa sb" and cb: "candidateOK (b + 5) cur sb bb"
    by blast
  from alloca kb have allocb: "allocated sb cur"
    by (auto simp: quantitiesKept_def intro: allocated_mono)
  from sza qb have szb: "stepSized b (quantitiesAt sb (foodQuantities cur))" by simp
  from Cons.IH [OF allocb szb cb, of xb]
  obtain sc bc xc where
    c: "tryFoods allNutrients allFoods nutrientNameToId cur foods (sb, bb, xb) = Inr (sc, bc, xc)"
    and qc: "quantitiesAt sc (foodQuantities cur) = quantitiesAt sb (foodQuantities cur)"
    and kc: "quantitiesKept cur sb sc" and cc: "candidateOK (b + 5) cur sc bc"
    by blast
  have "tryFoods allNutrients allFoods nutrientNameToId cur (food # foods) (st, best, s) = Inr (sc, bc, xc)"
    using a b c by simp
  moreover have "quantitiesAt sc (foodQuantities cur) = quantitiesAt st (foodQuantities cur)"
    using qa qb qc by simp
  moreover have "quantitiesKept cur st sc"
    using ka kb kc by (blast intro: quantitiesKept_trans)
  ultimately show ?case using cc by blast
qed

lemma searchRound_safe:
  assumes alloc: "allocated st best"
      and sz: "stepSized b (quantitiesAt st (foodQuantities best))"
      and nn: "0 \<le> b" and room: "b + 5 < 2 ^ 63"
  shows "\<exists>st2 adopted.
           searchRound allNutrients allFoods nutrientNameToId foods st best score = Inr (st2, adopted)
           \<and> allocated st2 best
           \<and> quantitiesAt st2 (foodQuantities best) = quantitiesAt st (foodQuantities best)
           \<and> (case adopted of
                 None \<Rightarrow> True
               | Some (r, s) \<Rightarrow> allocated st2 r \<and> stepSized (b + 5) (quantitiesAt st2 (foodQuantities r)))"
proof -
  from Clone_returns [OF alloc, of allFoods allNutrients] obtain st1 cur where
    cl: "Clone allFoods allNutrients st best = Inr (st1, cur)"
    and alloc1: "allocated st1 cur" and ne: "foodQuantities cur \<noteq> foodQuantities best"
    and qc: "quantitiesAt st1 (foodQuantities cur) = quantitiesAt st (foodQuantities best)"
    and qb: "quantitiesAt st1 (foodQuantities best) = quantitiesAt st (foodQuantities best)"
    and k1: "quantitiesKept best st st1"
    by blast
  from sz qc have sz1: "stepSized b (quantitiesAt st1 (foodQuantities cur))" by simp
  have c0: "candidateOK (b + 5) cur st1 None" by (simp add: candidateOK_def)
  from tryFoods_safe [OF alloc1 sz1 c0 nn room, of allNutrients allFoods nutrientNameToId foods score]
  obtain st2 best' s' where
    scan: "tryFoods allNutrients allFoods nutrientNameToId cur foods (st1, None, score) = Inr (st2, best', s')"
    and k2: "quantitiesKept cur st1 st2" and c2: "candidateOK (b + 5) cur st2 best'"
    by blast
  from alloc k1 have allocb1: "allocated st1 best"
    by (auto simp: quantitiesKept_def intro: allocated_mono)
  with k2 have allocb2: "allocated st2 best"
    by (auto simp: quantitiesKept_def intro: allocated_mono)
  from allocb1 ne k2 have "quantitiesAt st2 (foodQuantities best) = quantitiesAt st1 (foodQuantities best)"
    by (auto simp: quantitiesKept_def allocated_def)
  with qb have same: "quantitiesAt st2 (foodQuantities best) = quantitiesAt st (foodQuantities best)"
    by simp
  have "improving score (st1, None, score)" by (simp add: improving_def)
  from tryFoods_improving [OF scan this]
  have imp: "(best' = None \<and> s' = score) \<or> (best' \<noteq> None \<and> s' < score)"
    by (simp add: improving_def)
  show ?thesis
  proof (cases best')
    case None
    with cl scan allocb2 same show ?thesis
      by (simp add: searchRound_def endOfRound_def)
  next
    case (Some c)
    with imp have "s' < score" by simp
    with Some cl scan allocb2 same c2 show ?thesis
      by (simp add: searchRound_def endOfRound_def candidateOK_def)
  qed
qed

lemma safeOutcome_mono: "safeOutcome b out \<Longrightarrow> b \<le> b' \<Longrightarrow> safeOutcome b' out"
  by (cases out) (auto intro: stepSized_mono)

lemma mainLoop_safe:
  assumes "allocated st best"
      and "stepSized b (quantitiesAt st (foodQuantities best))"
      and "0 \<le> b"
      and "b + 5 * int (length rounds) < 2 ^ 63"
  shows "safeOutcome (b + 5 * int (length rounds))
           (snd (mainLoop allNutrients allFoods nutrientNameToId rounds st best score))"
  using assms
proof (induction rounds arbitrary: st best score b)
  case Nil
  then show ?case by simp
next
  case (Cons foods rounds)
  show ?case
  proof (cases "0 < score")
    case False
    with Cons.prems(2) show ?thesis
      by (auto intro: stepSized_mono)
  next
    case True
    from Cons.prems(4) have room: "b + 5 < 2 ^ 63" by simp
    from searchRound_safe [OF Cons.prems(1) Cons.prems(2) Cons.prems(3) room,
        of allNutrients allFoods nutrientNameToId foods score]
    obtain st2 adopted where
      r: "searchRound allNutrients allFoods nutrientNameToId foods st best score = Inr (st2, adopted)"
      and same: "quantitiesAt st2 (foodQuantities best) = quantitiesAt st (foodQuantities best)"
      and ad: "case adopted of
                 None \<Rightarrow> True
               | Some (r, s) \<Rightarrow> allocated st2 r \<and> stepSized (b + 5) (quantitiesAt st2 (foodQuantities r))"
      by blast
    show ?thesis
    proof (cases adopted)
      case None
      with True r same Cons.prems(2) show ?thesis
        by (auto intro: stepSized_mono)
    next
      case (Some rs)
      obtain r' s' where rs: "rs = (r', s')" by (cases rs) auto
      from ad Some rs have a2: "allocated st2 r'"
        and s2: "stepSized (b + 5) (quantitiesAt st2 (foodQuantities r'))" by simp_all
      from Cons.prems(3) have nn2: "0 \<le> b + 5" by simp
      from Cons.prems(4) have room2: "(b + 5) + 5 * int (length rounds) < 2 ^ 63" by simp
      have eq: "(b + 5) + 5 * int (length rounds) = b + 5 * int (length (foods # rounds))" by simp
      from Cons.IH [OF a2 s2 nn2 room2, of s'] eq
      have "safeOutcome (b + 5 * int (length (foods # rounds)))
              (snd (mainLoop allNutrients allFoods nutrientNameToId rounds st2 r' s'))"
        by simp
      with True r Some rs show ?thesis
        by (auto split: prod.splits)
    qed
  qed
qed

lemma NewRecipe_ready:
  assumes "NewRecipe allFoods allNutrients st = Inr (st0, recipe)"
  shows "allocated st0 recipe" and "stepSized 0 (quantitiesAt st0 (foodQuantities recipe))"
  using assms
  by (auto simp: NewRecipe_def AssertConsistency_def Let_def allocated_def stepSized_def)

text \<open>The score a round records is the score of the recipe it keeps.\<close>

lemma Score_same:
  assumes "\<forall>n. readFloat (totalsAt st (nutrientTotals r)) n = readFloat (totalsAt st1 (nutrientTotals r1)) n"
      and "quantitiesAt st (foodQuantities r) = quantitiesAt st1 (foodQuantities r1)"
  shows "Score allNutrients allFoods nutrientNameToId st r
           = Score allNutrients allFoods nutrientNameToId st1 r1"
  using assms
  by (simp add: Score_def AssertConsistency_def targetPenalties_def calculatePenaltyForNutrient_def
      phenylalanineTyrosinePenalty_readFloat folatePenalty_def caffeinePenalty_def
      dihydrophylloquinonePenalty_def numFoodsPenalty_def massPenalty_def Let_def)

lemma mapsKept_refl: "mapsKept r st st"
  by (simp add: mapsKept_def)

lemma mapsKept_trans: "mapsKept r st st1 \<Longrightarrow> mapsKept r st1 st2 \<Longrightarrow> mapsKept r st st2"
  by (auto simp: mapsKept_def)

lemma sameElsewhere_mapsKept: "sameElsewhere r st st1 \<Longrightarrow> mapsKept r st st1"
  by (simp add: sameElsewhere_def mapsKept_def)

lemma Score_kept:
  assumes "mapsKept cur st st1" and "allocated st c"
      and "nutrientTotals c \<noteq> nutrientTotals cur" and "foodQuantities c \<noteq> foodQuantities cur"
  shows "Score allNutrients allFoods nutrientNameToId st1 c
           = Score allNutrients allFoods nutrientNameToId st c"
  using assms by (intro Score_same) (auto simp: mapsKept_def allocated_def)

lemma scored_kept:
  assumes "scored allNutrients allFoods nutrientNameToId cur (st, b, s)" and "mapsKept cur st st1"
  shows "scored allNutrients allFoods nutrientNameToId cur (st1, b, s)"
proof (cases b)
  case None
  then show ?thesis by (simp add: scored_def)
next
  case (Some c)
  with assms(1) have a: "allocated st c" and n: "nutrientTotals c \<noteq> nutrientTotals cur"
    and f: "foodQuantities c \<noteq> foodQuantities cur"
    and sc: "Score allNutrients allFoods nutrientNameToId st c = Inr s"
    by (simp_all add: scored_def)
  from a assms(2) have "allocated st1 c" by (auto simp: mapsKept_def intro: allocated_mono)
  with Some n f sc Score_kept [OF assms(2) a n f, of allNutrients allFoods nutrientNameToId]
  show ?thesis by (simp add: scored_def)
qed

lemma Clone_scored:
  assumes "allocated st recipe" and "Clone allFoods allNutrients st recipe = Inr (st1, copy)"
  shows "allocated st1 copy" and "allocated st1 recipe"
    and "nutrientTotals copy \<noteq> nutrientTotals recipe"
    and "foodQuantities copy \<noteq> foodQuantities recipe"
    and "mapsKept recipe st st1"
    and "quantitiesAt st1 (foodQuantities recipe) = quantitiesAt st (foodQuantities recipe)"
    and "totalsAt st1 (nutrientTotals recipe) = totalsAt st (nutrientTotals recipe)"
    and "Score allNutrients allFoods nutrientNameToId st1 copy
           = Score allNutrients allFoods nutrientNameToId st recipe"
proof -
  from assms(1) have lt: "nutrientTotals recipe < nextAddr st" "foodQuantities recipe < nextAddr st"
    by (simp_all add: allocated_def)
  note c = Clone_result [OF assms(2)]
  from c(1) c(2) show "allocated st1 copy" by (simp add: allocated_def)
  from lt c(2) show "allocated st1 recipe" by (simp add: allocated_def)
  from lt c(1) show "nutrientTotals copy \<noteq> nutrientTotals recipe"
    and "foodQuantities copy \<noteq> foodQuantities recipe" by simp_all
  from c(2) c(3) c(4) show "mapsKept recipe st st1" by (simp add: mapsKept_def)
  from lt c(4) show "quantitiesAt st1 (foodQuantities recipe) = quantitiesAt st (foodQuantities recipe)"
    by simp
  from lt c(3) show "totalsAt st1 (nutrientTotals recipe) = totalsAt st (nutrientTotals recipe)"
    by simp
  from lt c(5) c(6) show "Score allNutrients allFoods nutrientNameToId st1 copy
           = Score allNutrients allFoods nutrientNameToId st recipe"
    by (intro Score_same) (simp_all add: readFloat_zeros_add)
qed

lemma allocated_kept: "allocated st r \<Longrightarrow> mapsKept cur st st1 \<Longrightarrow> allocated st1 r"
  by (auto simp: mapsKept_def intro: allocated_mono)

lemma pick_scored:
  assumes alloc: "allocated st1 cur"
      and sc: "Score allNutrients allFoods nutrientNameToId st1 cur = Inr newScore"
      and inv: "scored allNutrients allFoods nutrientNameToId cur (st1, b, s)"
      and pick: "(if newScore < s
                  then bindP (Clone allFoods allNutrients st1 cur) (\<lambda>(st2, copy). Inr (st2, Some copy, newScore))
                  else Inr (st1, b, s)) = Inr (st2, b1, s1)"
  shows "scored allNutrients allFoods nutrientNameToId cur (st2, b1, s1)"
    and "mapsKept cur st1 st2"
proof -
  show "scored allNutrients allFoods nutrientNameToId cur (st2, b1, s1)"
  proof (cases "newScore < s")
    case False
    with pick inv show ?thesis by simp
  next
    case True
    with pick obtain copy where cl: "Clone allFoods allNutrients st1 cur = Inr (st2, copy)"
      and b1: "b1 = Some copy" and s1: "s1 = newScore"
      by (auto simp: bindP_def split: sum.splits prod.splits)
    from Clone_scored(1,3,4,8) [OF alloc cl] sc b1 s1
    show ?thesis by (simp add: scored_def)
  qed
  show "mapsKept cur st1 st2"
  proof (cases "newScore < s")
    case False
    with pick show ?thesis by (simp add: mapsKept_refl)
  next
    case True
    with pick obtain copy where cl: "Clone allFoods allNutrients st1 cur = Inr (st2, copy)"
      by (auto simp: bindP_def split: sum.splits prod.splits)
    from Clone_scored(5) [OF alloc cl] show ?thesis .
  qed
qed

lemma tryRemoving_scored:
  assumes run: "tryRemoving allNutrients allFoods nutrientNameToId cur food (st, b, s) = Inr state1"
      and alloc: "allocated st cur"
      and inv: "scored allNutrients allFoods nutrientNameToId cur (st, b, s)"
  shows "scored allNutrients allFoods nutrientNameToId cur state1" and "mapsKept cur st (fst state1)"
proof -
  have "scored allNutrients allFoods nutrientNameToId cur state1 \<and> mapsKept cur st (fst state1)"
  proof (cases "HasFood st cur food")
    case False
    with run inv show ?thesis by (auto simp: tryRemoving_def mapsKept_refl)
  next
    case True
    with run obtain st1 newScore st2 b1 s1 st3 where
      rm: "RemoveFood allFoods st cur food STEPSIZE = Inr st1"
      and sc: "Score allNutrients allFoods nutrientNameToId st1 cur = Inr newScore"
      and pick: "(if newScore < s
            then bindP (Clone allFoods allNutrients st1 cur)
                   (\<lambda>(st2, copy). Inr (st2, Some copy, newScore))
            else Inr (st1, b, s)) = Inr (st2, b1, s1)"
      and ad: "AddFood allFoods st2 cur food STEPSIZE = Inr st3"
      and res: "state1 = (st3, b1, s1)"
      by (auto simp: tryRemoving_def bindP_def split: sum.splits if_splits prod.splits)
    from RemoveFood_sameElsewhere [OF rm] have k1: "mapsKept cur st st1"
      by (rule sameElsewhere_mapsKept)
    from allocated_kept [OF alloc k1] have alloc1: "allocated st1 cur" .
    from pick_scored [OF alloc1 sc scored_kept [OF inv k1] pick]
    have i2: "scored allNutrients allFoods nutrientNameToId cur (st2, b1, s1)"
      and k2: "mapsKept cur st1 st2" .
    from AddFood_sameElsewhere [OF ad] have k3: "mapsKept cur st2 st3"
      by (rule sameElsewhere_mapsKept)
    from scored_kept [OF i2 k3] res mapsKept_trans [OF mapsKept_trans [OF k1 k2] k3]
    show ?thesis by simp
  qed
  then show "scored allNutrients allFoods nutrientNameToId cur state1"
    and "mapsKept cur st (fst state1)" by simp_all
qed

lemma tryAdding_scored:
  assumes run: "tryAdding allNutrients allFoods nutrientNameToId cur food (st, b, s) = Inr state1"
      and alloc: "allocated st cur"
      and inv: "scored allNutrients allFoods nutrientNameToId cur (st, b, s)"
  shows "scored allNutrients allFoods nutrientNameToId cur state1" and "mapsKept cur st (fst state1)"
proof -
  from run obtain st1 newScore st2 b1 s1 st3 where
    ad: "AddFood allFoods st cur food STEPSIZE = Inr st1"
    and sc: "Score allNutrients allFoods nutrientNameToId st1 cur = Inr newScore"
    and pick: "(if newScore < s
          then bindP (Clone allFoods allNutrients st1 cur)
                 (\<lambda>(st2, copy). Inr (st2, Some copy, newScore))
          else Inr (st1, b, s)) = Inr (st2, b1, s1)"
    and rm: "RemoveFood allFoods st2 cur food STEPSIZE = Inr st3"
    and res: "state1 = (st3, b1, s1)"
    by (auto simp: tryAdding_def bindP_def split: sum.splits if_splits prod.splits)
  from AddFood_sameElsewhere [OF ad] have k1: "mapsKept cur st st1"
    by (rule sameElsewhere_mapsKept)
  from allocated_kept [OF alloc k1] have alloc1: "allocated st1 cur" .
  from pick_scored [OF alloc1 sc scored_kept [OF inv k1] pick]
  have i2: "scored allNutrients allFoods nutrientNameToId cur (st2, b1, s1)"
    and k2: "mapsKept cur st1 st2" .
  from RemoveFood_sameElsewhere [OF rm] have k3: "mapsKept cur st2 st3"
    by (rule sameElsewhere_mapsKept)
  from scored_kept [OF i2 k3] res show "scored allNutrients allFoods nutrientNameToId cur state1"
    by simp
  from mapsKept_trans [OF mapsKept_trans [OF k1 k2] k3] res show "mapsKept cur st (fst state1)"
    by simp
qed

lemma tryFoods_scored:
  assumes "tryFoods allNutrients allFoods nutrientNameToId cur foods (st, b, s) = Inr (st', b', s')"
      and "allocated st cur"
      and "scored allNutrients allFoods nutrientNameToId cur (st, b, s)"
  shows "scored allNutrients allFoods nutrientNameToId cur (st', b', s') \<and> mapsKept cur st st'"
  using assms
proof (induction foods arbitrary: st b s)
  case Nil
  then show ?case by (simp add: mapsKept_refl)
next
  case (Cons food foods)
  from Cons.prems(1) obtain sa ba xa sb bb xb where
    a: "tryRemoving allNutrients allFoods nutrientNameToId cur food (st, b, s) = Inr (sa, ba, xa)"
    and b: "tryAdding allNutrients allFoods nutrientNameToId cur food (sa, ba, xa) = Inr (sb, bb, xb)"
    and c: "tryFoods allNutrients allFoods nutrientNameToId cur foods (sb, bb, xb) = Inr (st', b', s')"
    by (auto simp: bindP_def split: sum.splits)
  note ra = tryRemoving_scored [OF a Cons.prems(2) Cons.prems(3), simplified]
  note alloca = allocated_kept [OF Cons.prems(2) ra(2)]
  note rb = tryAdding_scored [OF b alloca ra(1), simplified]
  note allocb = allocated_kept [OF alloca rb(2)]
  from Cons.IH [OF c allocb rb(1)] mapsKept_trans [OF mapsKept_trans [OF ra(2) rb(2)]]
  show ?case by blast
qed

lemma searchRound_scored:
  assumes run: "searchRound allNutrients allFoods nutrientNameToId foods st best score = Inr (st2, adopted)"
      and alloc: "allocated st best"
  shows "allocated st2 best"
    and "Score allNutrients allFoods nutrientNameToId st2 best
           = Score allNutrients allFoods nutrientNameToId st best"
    and "case adopted of
           None \<Rightarrow> True
         | Some (r, s) \<Rightarrow> allocated st2 r \<and> Score allNutrients allFoods nutrientNameToId st2 r = Inr s"
proof -
  from run obtain st1 cur b' s' where
    cl: "Clone allFoods allNutrients st best = Inr (st1, cur)"
    and scan: "tryFoods allNutrients allFoods nutrientNameToId cur foods (st1, None, score) = Inr (st2, b', s')"
    and fin: "endOfRound b' s' score = Inr adopted"
    by (auto simp: searchRound_def bindP_def split: sum.splits prod.splits)
  note c = Clone_scored [OF alloc cl]
  have "scored allNutrients allFoods nutrientNameToId cur (st1, None, score)" by (simp add: scored_def)
  from tryFoods_scored [OF scan c(1) this]
  have inv: "scored allNutrients allFoods nutrientNameToId cur (st2, b', s')"
    and k: "mapsKept cur st1 st2" by simp_all
  from allocated_kept [OF c(2) k] show "allocated st2 best" .
  from c(3) c(4) have ne: "nutrientTotals best \<noteq> nutrientTotals cur" "foodQuantities best \<noteq> foodQuantities cur"
    by simp_all
  have "Score allNutrients allFoods nutrientNameToId st2 best
          = Score allNutrients allFoods nutrientNameToId st1 best"
    by (rule Score_kept [OF k c(2) ne])
  also have "\<dots> = Score allNutrients allFoods nutrientNameToId st best"
    using c(6) c(7) by (intro Score_same) simp_all
  finally show "Score allNutrients allFoods nutrientNameToId st2 best
           = Score allNutrients allFoods nutrientNameToId st best" .
  from fin inv show "case adopted of
           None \<Rightarrow> True
         | Some (r, s) \<Rightarrow> allocated st2 r \<and> Score allNutrients allFoods nutrientNameToId st2 r = Inr s"
    by (auto simp: endOfRound_def scored_def split: option.splits if_splits)
qed

lemma mainLoop_scored:
  assumes "allocated st best"
      and "Score allNutrients allFoods nutrientNameToId st best = Inr score"
  shows "scoredOutcome allNutrients allFoods nutrientNameToId
           (snd (mainLoop allNutrients allFoods nutrientNameToId rounds st best score))"
  using assms
proof (induction rounds arbitrary: st best score)
  case Nil
  then show ?case by simp
next
  case (Cons foods rounds)
  show ?case
  proof (cases "searchRound allNutrients allFoods nutrientNameToId foods st best score")
    case (Inl e)
    with Cons.prems show ?thesis by simp
  next
    case (Inr res)
    obtain st2 adopted where res: "res = (st2, adopted)" by (cases res)
    note r = searchRound_scored [OF Inr [unfolded res] Cons.prems(1)]
    show ?thesis
    proof (cases adopted)
      case None
      with Inr res r(2) Cons.prems show ?thesis by simp
    next
      case (Some rs)
      obtain r' s' where rs: "rs = (r', s')" by (cases rs)
      from r(3) Some rs have a: "allocated st2 r'"
        and s: "Score allNutrients allFoods nutrientNameToId st2 r' = Inr s'" by simp_all
      from Cons.IH [OF a s] Inr res Some rs Cons.prems show ?thesis
        by (auto split: prod.splits)
    qed
  qed
qed

text \<open>One round of the search on the catalog of the examples, from the new recipe.\<close>

lemma round_example:
  "(case searchRound [255 \<mapsto> water] [9326 \<mapsto> melon] [''Water'' \<mapsto> 255] [melon] afterNew firstRecipe 4100 of
      Inr (st2, Some (r, s)) \<Rightarrow> r = \<lparr>nutrientTotals = 4, foodQuantities = 5\<rparr> \<and> quantitiesAt st2 5 = [9326 \<mapsto> 5] \<and> s * 28380 = 116346311
    | Inr (st2, None) \<Rightarrow> False
    | Inl e \<Rightarrow> False)"
  by (simp add: search_defs example_defs score_defs)

lemma round_outcome:
  "\<exists>st2 s. searchRound [255 \<mapsto> water] [9326 \<mapsto> melon] [''Water'' \<mapsto> 255] [melon] afterNew firstRecipe 4100
       = Inr (st2, Some (\<lparr>nutrientTotals = 4, foodQuantities = 5\<rparr>, s))
    \<and> quantitiesAt st2 5 = [9326 \<mapsto> 5] \<and> s * 28380 = 116346311"
proof (cases "searchRound [255 \<mapsto> water] [9326 \<mapsto> melon] [''Water'' \<mapsto> 255] [melon] afterNew firstRecipe 4100")
  case (Inl e)
  with round_example show ?thesis by (simp only: sum.case)
next
  case (Inr res)
  obtain st2 adopted where res: "res = (st2, adopted)" by (cases res)
  show ?thesis
  proof (cases adopted)
    case None
    with round_example Inr res show ?thesis by (simp only: sum.case prod.case option.case)
  next
    case (Some rs)
    obtain r s where rs: "rs = (r, s)" by (cases rs)
    from round_example Inr res Some rs
    have "r = \<lparr>nutrientTotals = 4, foodQuantities = 5\<rparr> \<and> quantitiesAt st2 5 = [9326 \<mapsto> 5]
            \<and> s * 28380 = 116346311"
      by (simp only: sum.case prod.case option.case)
    with Inr res Some rs show ?thesis by blast
  qed
qed

subsection \<open>C1: the shape of the penalty primitive\<close>

text \<open>
  C1. For every amount, every \<open>min > 0\<close> and every \<open>max\<close> that is 0 or above \<open>min\<close>:
  below \<open>min\<close> the penalty is \<open>(min - amount) / min * 100\<close>; from \<open>min\<close> on it is 0
  when \<open>max = 0\<close>; otherwise, with \<open>mid = min + (max - min) / 2\<close>, it is 0 below \<open>mid\<close>
  and \<open>(amount - mid) / (max - mid) * 100\<close> from \<open>mid\<close> on, with no clamp at 100. With
  \<open>min = 10\<close> and \<open>max = 30\<close> the penalties of 5, 10, 20, 25, 30 and 40 are
  50, 0, 0, 50, 100 and 200.
\<close>

theorem calcPenalty_shape:
  assumes "0 < minimum" and "maximum = 0 \<or> minimum < maximum"
  shows "(amount < minimum \<longrightarrow>
            calcPenalty amount minimum maximum = (minimum - amount) / minimum * 100)
       \<and> (minimum \<le> amount \<and> maximum = 0 \<longrightarrow> calcPenalty amount minimum maximum = 0)
       \<and> (minimum \<le> amount \<and> maximum \<noteq> 0 \<and> amount < minimum + (maximum - minimum) / 2 \<longrightarrow>
            calcPenalty amount minimum maximum = 0)
       \<and> (minimum \<le> amount \<and> maximum \<noteq> 0 \<and> minimum + (maximum - minimum) / 2 \<le> amount \<longrightarrow>
            calcPenalty amount minimum maximum =
              (amount - (minimum + (maximum - minimum) / 2))
                / (maximum - (minimum + (maximum - minimum) / 2)) * 100)
       \<and> (maximum \<noteq> 0 \<and> maximum < amount \<longrightarrow> 100 < calcPenalty amount minimum maximum)
       \<and> calcPenalty 5 10 30 = 50 \<and> calcPenalty 10 10 30 = 0 \<and> calcPenalty 20 10 30 = 0
       \<and> calcPenalty 25 10 30 = 50 \<and> calcPenalty 30 10 30 = 100 \<and> calcPenalty 40 10 30 = 200"
proof -
  have below: "amount < minimum \<longrightarrow>
      calcPenalty amount minimum maximum = (minimum - amount) / minimum * 100"
    by (simp add: calcPenalty_def)
  have nomax: "minimum \<le> amount \<and> maximum = 0 \<longrightarrow> calcPenalty amount minimum maximum = 0"
    by (simp add: calcPenalty_def)
  have safe: "minimum \<le> amount \<and> maximum \<noteq> 0 \<and> amount < minimum + (maximum - minimum) / 2 \<longrightarrow>
      calcPenalty amount minimum maximum = 0"
    by (simp add: calcPenalty_def Let_def)
  have over: "minimum \<le> amount \<and> maximum \<noteq> 0 \<and> minimum + (maximum - minimum) / 2 \<le> amount \<longrightarrow>
      calcPenalty amount minimum maximum =
        (amount - (minimum + (maximum - minimum) / 2))
          / (maximum - (minimum + (maximum - minimum) / 2)) * 100"
    by (simp add: calcPenalty_def Let_def)
  have unclamped: "maximum \<noteq> 0 \<and> maximum < amount \<longrightarrow> 100 < calcPenalty amount minimum maximum"
  proof (intro impI, elim conjE)
    assume nz: "maximum \<noteq> 0" and gt: "maximum < amount"
    from assms nz have lt: "minimum < maximum" by simp
    define mid where "mid = minimum + (maximum - minimum) / 2"
    have half: "maximum - mid = (maximum - minimum) / 2"
      by (simp add: mid_def field_simps)
    with lt have pos: "0 < maximum - mid" by simp
    from gt have "maximum - mid < amount - mid" by simp
    with pos have "1 < (amount - mid) / (maximum - mid)" by (simp add: field_simps)
    then have "1 * 100 < (amount - mid) / (maximum - mid) * 100"
      by (rule mult_strict_right_mono) simp
    then have big: "100 < (amount - mid) / (maximum - mid) * 100" by linarith
    from gt lt pos have "\<not> amount < minimum" and "\<not> amount < mid" by simp_all
    with nz big show "100 < calcPenalty amount minimum maximum"
      by (simp add: calcPenalty_def Let_def mid_def)
  qed
  have points: "calcPenalty 5 10 30 = 50 \<and> calcPenalty 10 10 30 = 0 \<and> calcPenalty 20 10 30 = 0
       \<and> calcPenalty 25 10 30 = 50 \<and> calcPenalty 30 10 30 = 100 \<and> calcPenalty 40 10 30 = 200"
    by (simp add: calcPenalty_def Let_def)
  from below nomax safe over unclamped points show ?thesis by blast
qed

theorem calcPenalty_shape_witness:
  "(0::real) < 10 \<and> (10::real) < 30 \<and> calcPenalty 25 10 30 = 50 \<and> calcPenalty 40 10 30 = 200
     \<and> 100 < calcPenalty 40 10 30"
  using calcPenalty_shape [of 10 30 40] by simp

subsection \<open>C2: the cached totals are the sum over the quantities\<close>




subsection \<open>C3: AddFood then RemoveFood\<close>




subsection \<open>C4: when RemoveFood fails and what it does\<close>

text \<open>
  C4. RemoveFood panics exactly when the food has no entry in the quantities or the
  grams exceed its quantity (as signed integers), and each of its panics is an
  InvalidRemoval. When it returns, the food had an entry \<open>q\<close>; the entry is deleted
  exactly when the grams equal \<open>q\<close> and holds \<open>q - grams\<close> otherwise (the integer
  difference, for grams that are not negative); and every nutrient total reads
  \<open>grams\<close> times the food's amount per gram less than before.
\<close>

theorem RemoveFood_spec:
  fixes st recipe food grams
  defines "quantities \<equiv> quantitiesAt st (foodQuantities recipe)"
      and "totals \<equiv> totalsAt st (nutrientTotals recipe)"
  shows "((\<exists>e. RemoveFood allFoods st recipe food grams = Inl e) \<longleftrightarrow>
            (quantities (id_f food) = None
             \<or> (\<exists>q. quantities (id_f food) = Some q \<and> sint q < sint grams)))
       \<and> (\<forall>e. RemoveFood allFoods st recipe food grams = Inl e \<longrightarrow> InvalidRemoval e)
       \<and> (\<forall>st1. RemoveFood allFoods st recipe food grams = Inr st1 \<longrightarrow>
            (\<exists>q. quantities (id_f food) = Some q
               \<and> quantitiesAt st1 (foodQuantities recipe) =
                   (if grams = q then quantities(id_f food := None)
                    else quantities(id_f food \<mapsto> q - grams))
               \<and> (quantitiesAt st1 (foodQuantities recipe) (id_f food) = None \<longleftrightarrow> grams = q)
               \<and> (0 \<le> sint grams \<longrightarrow> sint (q - grams) = sint q - sint grams))
            \<and> (\<forall>n. readFloat (totalsAt st1 (nutrientTotals recipe)) n =
                   readFloat totals n - real_of_int (sint grams) * perGram (nutrients food) n))"
  by (auto simp: RemoveFood_def AssertConsistency_def Let_def InvalidRemoval_def quantities_def
      totals_def readFloat_removeNutrients sint_sub_no_wrap split: option.splits if_splits)

theorem RemoveFood_spec_witness:
  "RemoveFood [9326 \<mapsto> melon] tenGrams firstRecipe melon 20 = Inl MoreThanInRecipe
   \<and> InvalidRemoval MoreThanInRecipe
   \<and> RemoveFood [9326 \<mapsto> melon] emptyStore firstRecipe melon 5 = Inl FoodNotInRecipe
   \<and> (case RemoveFood [9326 \<mapsto> melon] tenGrams firstRecipe melon 10 of
        Inr st1 \<Rightarrow> quantitiesAt st1 (foodQuantities firstRecipe) = Map.empty
                   \<and> readFloat (totalsAt st1 (nutrientTotals firstRecipe)) 255 = 0
      | Inl e \<Rightarrow> False)
   \<and> (case RemoveFood [9326 \<mapsto> melon] tenGrams firstRecipe melon 4 of
        Inr st1 \<Rightarrow> quantitiesAt st1 (foodQuantities firstRecipe) = [9326 \<mapsto> 6]
                   \<and> readFloat (totalsAt st1 (nutrientTotals firstRecipe)) 255 = 6
      | Inl e \<Rightarrow> False)"
  using RemoveFood_spec [of "[9326 \<mapsto> melon]" tenGrams firstRecipe melon 20]
        RemoveFood_spec [of "[9326 \<mapsto> melon]" tenGrams firstRecipe melon 4]
  by (simp add: example_defs InvalidRemoval_def)

subsection \<open>C5: AddFood has no failure\<close>

text \<open>
  C5, as amended. AddFood has no failure condition at all: for every grams, positive or
  not, it returns; the entry of the food holds its old quantity plus the grams (Go's
  \<open>+\<close>), or the grams when there was none, and every nutrient total reads \<open>grams\<close>
  times the food's amount per gram more than before.
\<close>

theorem AddFood_never_panics:
  "\<exists>st1. AddFood allFoods st recipe food grams = Inr st1
      \<and> quantitiesAt st1 (foodQuantities recipe) =
          (case quantitiesAt st (foodQuantities recipe) (id_f food) of
             Some originalQuantity \<Rightarrow>
               (quantitiesAt st (foodQuantities recipe))(id_f food \<mapsto> originalQuantity + grams)
           | None \<Rightarrow> (quantitiesAt st (foodQuantities recipe))(id_f food \<mapsto> grams))
      \<and> (\<forall>n. readFloat (totalsAt st1 (nutrientTotals recipe)) n =
                readFloat (totalsAt st (nutrientTotals recipe)) n
                  + real_of_int (sint grams) * perGram (nutrients food) n)"
  by (simp add: AddFood_def AssertConsistency_def Let_def readFloat_addNutrients)

text \<open>
  C5 as stated fails: on the new recipe, AddFood of 0 g of melon returns and leaves an
  entry of 0 g; AddFood of -5 g then returns and leaves -5 g.
\<close>

theorem AddFood_nonpositive_counterexample:
  "(case bindP (NewRecipe [9326 \<mapsto> melon] [255 \<mapsto> water] emptyStore)
          (\<lambda>(st0, recipe). bindP (AddFood [9326 \<mapsto> melon] st0 recipe melon 0)
          (\<lambda>st1. bindP (AddFood [9326 \<mapsto> melon] st1 recipe melon (- 5))
          (\<lambda>st2. Inr (quantitiesAt st1 (foodQuantities recipe) 9326,
                       quantitiesAt st2 (foodQuantities recipe) 9326)))) of
      Inr r \<Rightarrow> r = (Some 0, Some (- 5))
    | Inl e \<Rightarrow> False)
   \<and> sint (0 :: goint) \<le> 0 \<and> sint (- 5 :: goint) < 0"
  by (simp add: example_defs)

subsection \<open>C6: the best score never increases\<close>

text \<open>
  C6. The values \<^verbatim>\<open>bestScoreEver\<close> takes over the rounds of the search are strictly
  decreasing, for any catalog, any orders of the foods and any number of rounds. A round
  hands over a new best recipe only with a score strictly below the best score at its
  start; a round with no such candidate ends the search at "Reached local maxima" with
  the best recipe and score it started with; and at the end of a round a candidate whose
  score is above the best score ever is the panic "wtf", an internal consistency fault
  (a candidate that is not worse is adopted). The score a round hands over is the score
  of the recipe it hands over; and when the search starts with the score of its recipe,
  the best score it ends with is the score of the best recipe it ends with.
\<close>

theorem best_score_decreases:
  "sorted_wrt (\<lambda>earlier later. later < earlier)
     (fst (mainLoop allNutrients allFoods nutrientNameToId rounds st bestRecipeEver bestScoreEver))
   \<and> (\<forall>st2 r s. searchRound allNutrients allFoods nutrientNameToId foods st bestRecipeEver bestScoreEver
                    = Inr (st2, Some (r, s)) \<longrightarrow> s < bestScoreEver)
   \<and> (\<forall>st2. searchRound allNutrients allFoods nutrientNameToId foods st bestRecipeEver bestScoreEver
                = Inr (st2, None) \<and> 0 < bestScoreEver \<longrightarrow>
          mainLoop allNutrients allFoods nutrientNameToId (foods # rounds) st bestRecipeEver bestScoreEver
            = ([bestScoreEver], LocalMaxima st2 bestRecipeEver bestScoreEver))
   \<and> endOfRound None bestScoreThisRound bestScoreEver = Inr None
   \<and> (\<forall>r. bestScoreEver < bestScoreThisRound \<longrightarrow>
          endOfRound (Some r) bestScoreThisRound bestScoreEver = Inl WorseThanBestEver
          \<and> InternalConsistencyFault WorseThanBestEver)
   \<and> (\<forall>r. \<not> bestScoreEver < bestScoreThisRound \<longrightarrow>
          endOfRound (Some r) bestScoreThisRound bestScoreEver = Inr (Some (r, bestScoreThisRound)))
   \<and> (\<forall>st2 r s. allocated st bestRecipeEver
          \<and> searchRound allNutrients allFoods nutrientNameToId foods st bestRecipeEver bestScoreEver
                = Inr (st2, Some (r, s)) \<longrightarrow>
          Score allNutrients allFoods nutrientNameToId st2 r = Inr s)
   \<and> (allocated st bestRecipeEver
        \<and> Score allNutrients allFoods nutrientNameToId st bestRecipeEver = Inr bestScoreEver \<longrightarrow>
          scoredOutcome allNutrients allFoods nutrientNameToId
            (snd (mainLoop allNutrients allFoods nutrientNameToId rounds st bestRecipeEver bestScoreEver)))"
proof -
  have a: "sorted_wrt (\<lambda>earlier later. later < earlier)
     (fst (mainLoop allNutrients allFoods nutrientNameToId rounds st bestRecipeEver bestScoreEver))"
    using mainLoop_scores by blast
  have b: "\<forall>st2 r s. searchRound allNutrients allFoods nutrientNameToId foods st bestRecipeEver bestScoreEver
                    = Inr (st2, Some (r, s)) \<longrightarrow> s < bestScoreEver"
    using searchRound_adopts_better by blast
  have c: "\<forall>st2. searchRound allNutrients allFoods nutrientNameToId foods st bestRecipeEver bestScoreEver
                = Inr (st2, None) \<and> 0 < bestScoreEver \<longrightarrow>
          mainLoop allNutrients allFoods nutrientNameToId (foods # rounds) st bestRecipeEver bestScoreEver
            = ([bestScoreEver], LocalMaxima st2 bestRecipeEver bestScoreEver)"
    by simp
  have d: "endOfRound None bestScoreThisRound bestScoreEver = Inr None"
    by (simp add: endOfRound_def)
  have e: "\<forall>r. bestScoreEver < bestScoreThisRound \<longrightarrow>
          endOfRound (Some r) bestScoreThisRound bestScoreEver = Inl WorseThanBestEver
          \<and> InternalConsistencyFault WorseThanBestEver"
    by (simp add: endOfRound_def InternalConsistencyFault_def)
  have f: "\<forall>r. \<not> bestScoreEver < bestScoreThisRound \<longrightarrow>
          endOfRound (Some r) bestScoreThisRound bestScoreEver = Inr (Some (r, bestScoreThisRound))"
    by (simp add: endOfRound_def)
  have g: "\<forall>st2 r s. allocated st bestRecipeEver
          \<and> searchRound allNutrients allFoods nutrientNameToId foods st bestRecipeEver bestScoreEver
                = Inr (st2, Some (r, s)) \<longrightarrow>
          Score allNutrients allFoods nutrientNameToId st2 r = Inr s"
  proof (intro allI impI, elim conjE)
    fix st2 r s
    assume "allocated st bestRecipeEver"
      and "searchRound allNutrients allFoods nutrientNameToId foods st bestRecipeEver bestScoreEver
                = Inr (st2, Some (r, s))"
    from searchRound_scored(3) [OF this(2) this(1)]
    show "Score allNutrients allFoods nutrientNameToId st2 r = Inr s" by simp
  qed
  have h: "allocated st bestRecipeEver
        \<and> Score allNutrients allFoods nutrientNameToId st bestRecipeEver = Inr bestScoreEver \<longrightarrow>
          scoredOutcome allNutrients allFoods nutrientNameToId
            (snd (mainLoop allNutrients allFoods nutrientNameToId rounds st bestRecipeEver bestScoreEver))"
    using mainLoop_scored by blast
  from a b c d e f g h show ?thesis by (intro conjI)
qed

theorem best_score_decreases_witness:
  "(case searchRound [255 \<mapsto> water] [9326 \<mapsto> melon] [''Water'' \<mapsto> 255] [melon] afterNew firstRecipe 4100 of
      Inr (st2, Some (r, s)) \<Rightarrow>
        s < 4100 \<and> s * 28380 = 116346311
        \<and> Score [255 \<mapsto> water] [9326 \<mapsto> melon] [''Water'' \<mapsto> 255] st2 r = Inr s
    | Inr (st2, None) \<Rightarrow> False
    | Inl e \<Rightarrow> False)
   \<and> Score [255 \<mapsto> water] [9326 \<mapsto> melon] [''Water'' \<mapsto> 255] afterNew firstRecipe = Inr 4100
   \<and> fst (mainLoop [255 \<mapsto> water] [9326 \<mapsto> melon] [''Water'' \<mapsto> 255] [[melon]] afterNew firstRecipe 4100)
       = [4100, 116346311 / 28380]
   \<and> scoredOutcome [255 \<mapsto> water] [9326 \<mapsto> melon] [''Water'' \<mapsto> 255]
        (snd (mainLoop [255 \<mapsto> water] [9326 \<mapsto> melon] [''Water'' \<mapsto> 255] [[melon]] afterNew firstRecipe 4100))
   \<and> (case snd (mainLoop [255 \<mapsto> water] Map.empty [''Water'' \<mapsto> 255] [[]] afterNew firstRecipe 4100) of
        LocalMaxima st2 r s \<Rightarrow> r = firstRecipe \<and> s = 4100
      | Panicked e \<Rightarrow> False
      | ScoreNotPositive st2 r s \<Rightarrow> False
      | OutOfRounds st2 r s \<Rightarrow> False)
   \<and> endOfRound (Some firstRecipe) 4101 4100 = Inl WorseThanBestEver
   \<and> endOfRound (Some firstRecipe) 4099 4100 = Inr (Some (firstRecipe, 4099))"
proof -
  let ?nutr = "[255 \<mapsto> water]" and ?cat = "[9326 \<mapsto> melon]" and ?names = "[''Water'' \<mapsto> 255]"
  obtain st2 s where
    r: "searchRound ?nutr ?cat ?names [melon] afterNew firstRecipe 4100
       = Inr (st2, Some (\<lparr>nutrientTotals = 4, foodQuantities = 5\<rparr>, s))"
    and s: "s * 28380 = 116346311"
    using round_outcome by (elim exE conjE)
  note inst1 = best_score_decreases [of ?nutr ?cat ?names "[[melon]]" afterNew firstRecipe 4100 "[melon]" 4101]
  note inst2 = best_score_decreases [of ?nutr Map.empty ?names "[]" afterNew firstRecipe 4100 "[]" 4099]
  have lt: "s < 4100"
    using inst1 [THEN conjunct2, THEN conjunct1, rule_format, OF r] .
  from s have sv: "s = 116346311 / 28380" by simp
  then have pos: "0 < s" by simp
  have trace: "fst (mainLoop ?nutr ?cat ?names [[melon]] afterNew firstRecipe 4100)
       = [4100, 116346311 / 28380]"
    by (simp add: r pos sv [symmetric])
  have alloc: "allocated afterNew firstRecipe"
    by (simp add: allocated_def afterNew_def firstRecipe_def)
  have start: "Score ?nutr ?cat ?names afterNew firstRecipe = Inr 4100"
    by (simp add: score_defs AssertConsistency_def readFloat_def afterNew_def firstRecipe_def Let_def)
  have scoreOf: "Score ?nutr ?cat ?names st2 \<lparr>nutrientTotals = 4, foodQuantities = 5\<rparr> = Inr s"
    using inst1 [THEN conjunct2, THEN conjunct2, THEN conjunct2, THEN conjunct2, THEN conjunct2,
        THEN conjunct2, THEN conjunct1, rule_format, OF conjI [OF alloc r]] .
  have ends: "scoredOutcome ?nutr ?cat ?names
        (snd (mainLoop ?nutr ?cat ?names [[melon]] afterNew firstRecipe 4100))"
    using inst1 [THEN conjunct2, THEN conjunct2, THEN conjunct2, THEN conjunct2, THEN conjunct2,
        THEN conjunct2, THEN conjunct2, rule_format, OF conjI [OF alloc start]] .
  obtain st3 where none: "searchRound ?nutr Map.empty ?names [] afterNew firstRecipe 4100 = Inr (st3, None)"
    by (simp add: searchRound_def Clone_def NewRecipe_def AssertConsistency_def Let_def endOfRound_def)
  have "(0::real) < 4100" by simp
  with none have pre: "searchRound ?nutr Map.empty ?names [] afterNew firstRecipe 4100 = Inr (st3, None)
      \<and> (0::real) < 4100" by (rule conjI)
  have lm: "mainLoop ?nutr Map.empty ?names [[]] afterNew firstRecipe 4100
            = ([4100], LocalMaxima st3 firstRecipe 4100)"
    using inst2 [THEN conjunct2, THEN conjunct2, THEN conjunct1, rule_format, OF pre] .
  have "(4100::real) < 4101" by simp
  then have worse: "endOfRound (Some firstRecipe) 4101 4100 = Inl WorseThanBestEver"
    using inst1 [THEN conjunct2, THEN conjunct2, THEN conjunct2, THEN conjunct2, THEN conjunct1,
        rule_format, of firstRecipe] by simp
  have "\<not> (4100::real) < 4099" by simp
  then have better: "endOfRound (Some firstRecipe) 4099 4100 = Inr (Some (firstRecipe, 4099))"
    using inst2 [THEN conjunct2, THEN conjunct2, THEN conjunct2, THEN conjunct2, THEN conjunct2,
        THEN conjunct1, rule_format, of firstRecipe] by simp
  have first: "(case searchRound ?nutr ?cat ?names [melon] afterNew firstRecipe 4100 of
      Inr (st2, Some (r, s)) \<Rightarrow>
        s < 4100 \<and> s * 28380 = 116346311 \<and> Score ?nutr ?cat ?names st2 r = Inr s
    | Inr (st2, None) \<Rightarrow> False
    | Inl e \<Rightarrow> False)"
    by (simp add: r lt s scoreOf)
  have third: "(case snd (mainLoop ?nutr Map.empty ?names [[]] afterNew firstRecipe 4100) of
        LocalMaxima st2 r s \<Rightarrow> r = firstRecipe \<and> s = 4100
      | Panicked e \<Rightarrow> False
      | ScoreNotPositive st2 r s \<Rightarrow> False
      | OutOfRounds st2 r s \<Rightarrow> False)"
    by (simp only: lm snd_conv outcome.case simp_thms)
  from first start trace ends third worse better show ?thesis by (intro conjI)
qed

subsection \<open>C7: Clone returns independent maps\<close>

text \<open>
  C7. For a recipe whose maps are allocated, Clone returns a recipe with two new maps:
  the quantities are the same entries and every nutrient total reads the same, and the
  maps of the original are as before. Whatever run of AddFood and RemoveFood calls is
  then applied to the clone, the two maps of the original stay what they were; and
  whatever run is applied to the original, the two maps of the clone stay what they were.
\<close>

theorem Clone_independent:
  assumes "allocated st recipe"
      and "Clone allFoods allNutrients st recipe = Inr (st1, copy)"
  shows "nutrientTotals copy \<noteq> nutrientTotals recipe
       \<and> foodQuantities copy \<noteq> foodQuantities recipe
       \<and> quantitiesAt st1 (foodQuantities copy) = quantitiesAt st (foodQuantities recipe)
       \<and> (\<forall>n. readFloat (totalsAt st1 (nutrientTotals copy)) n
                = readFloat (totalsAt st (nutrientTotals recipe)) n)
       \<and> quantitiesAt st1 (foodQuantities recipe) = quantitiesAt st (foodQuantities recipe)
       \<and> totalsAt st1 (nutrientTotals recipe) = totalsAt st (nutrientTotals recipe)
       \<and> (\<forall>ms st2. mutateAll allFoods st1 copy ms = Inr st2 \<longrightarrow>
             quantitiesAt st2 (foodQuantities recipe) = quantitiesAt st (foodQuantities recipe)
             \<and> totalsAt st2 (nutrientTotals recipe) = totalsAt st (nutrientTotals recipe))
       \<and> (\<forall>ms st2. mutateAll allFoods st1 recipe ms = Inr st2 \<longrightarrow>
             quantitiesAt st2 (foodQuantities copy) = quantitiesAt st1 (foodQuantities copy)
             \<and> totalsAt st2 (nutrientTotals copy) = totalsAt st1 (nutrientTotals copy))"
proof -
  from assms(1) have lt: "nutrientTotals recipe < nextAddr st" "foodQuantities recipe < nextAddr st"
    by (simp_all add: allocated_def)
  note c = Clone_result [OF assms(2)]
  from lt c(1) have ne: "nutrientTotals copy \<noteq> nutrientTotals recipe"
    "foodQuantities copy \<noteq> foodQuantities recipe" by simp_all
  from lt c(5) have q: "quantitiesAt st1 (foodQuantities copy) = quantitiesAt st (foodQuantities recipe)"
    by simp
  from lt c(6) have t: "readFloat (totalsAt st1 (nutrientTotals copy)) n
                = readFloat (totalsAt st (nutrientTotals recipe)) n" for n
    by (simp add: readFloat_zeros_add)
  from lt c(3) c(4) have keep: "quantitiesAt st1 (foodQuantities recipe) = quantitiesAt st (foodQuantities recipe)"
    "totalsAt st1 (nutrientTotals recipe) = totalsAt st (nutrientTotals recipe)"
    by simp_all
  have onCopy: "quantitiesAt st2 (foodQuantities recipe) = quantitiesAt st (foodQuantities recipe)
             \<and> totalsAt st2 (nutrientTotals recipe) = totalsAt st (nutrientTotals recipe)"
    if "mutateAll allFoods st1 copy ms = Inr st2" for ms st2
    using mutateAll_sameElsewhere [OF that] ne keep by (simp add: sameElsewhere_def)
  have onOriginal: "quantitiesAt st2 (foodQuantities copy) = quantitiesAt st1 (foodQuantities copy)
             \<and> totalsAt st2 (nutrientTotals copy) = totalsAt st1 (nutrientTotals copy)"
    if "mutateAll allFoods st1 recipe ms = Inr st2" for ms st2
    using mutateAll_sameElsewhere [OF that] ne by (simp add: sameElsewhere_def)
  from ne q t keep onCopy onOriginal show ?thesis by blast
qed

theorem Clone_independent_witness:
  "allocated tenGrams firstRecipe
   \<and> (case bindP (Clone [9326 \<mapsto> melon] [255 \<mapsto> water] tenGrams firstRecipe)
          (\<lambda>(st1, copy). bindP (mutateAll [9326 \<mapsto> melon] st1 copy [Add melon 5, Remove melon 15])
          (\<lambda>st2. Inr (copy, quantitiesAt st1 (foodQuantities copy),
                       quantitiesAt st2 (foodQuantities copy),
                       quantitiesAt st2 (foodQuantities firstRecipe),
                       totalsAt st2 (nutrientTotals firstRecipe)))) of
        Inr r \<Rightarrow> r = (\<lparr>nutrientTotals = 2, foodQuantities = 3\<rparr>, [9326 \<mapsto> 10], Map.empty,
                       [9326 \<mapsto> 10], [255 \<mapsto> 10])
      | Inl e \<Rightarrow> False)"
proof -
  let ?nutr = "[255 \<mapsto> water]" and ?cat = "[9326 \<mapsto> melon]"
  let ?copy = "\<lparr>nutrientTotals = 2, foodQuantities = 3\<rparr>"
  have alloc: "allocated tenGrams firstRecipe"
    by (simp add: allocated_def tenGrams_def firstRecipe_def)
  define st1 where "st1 = (case Clone ?cat ?nutr tenGrams firstRecipe of
                             Inr (s, c) \<Rightarrow> s | Inl e \<Rightarrow> emptyStore)"
  have cl: "Clone ?cat ?nutr tenGrams firstRecipe = Inr (st1, ?copy)"
    by (simp add: st1_def Clone_def NewRecipe_def AssertConsistency_def Let_def tenGrams_def)
  define st2 where "st2 = (case mutateAll ?cat st1 ?copy [Add melon 5, Remove melon 15] of
                             Inr s \<Rightarrow> s | Inl e \<Rightarrow> emptyStore)"
  have q1: "quantitiesAt st1 (foodQuantities ?copy) = [9326 \<mapsto> 10]"
    by (simp add: st1_def Clone_def NewRecipe_def AssertConsistency_def Let_def tenGrams_def
        firstRecipe_def)
  have run: "mutateAll ?cat st1 ?copy [Add melon 5, Remove melon 15] = Inr st2"
    by (simp add: st2_def st1_def Clone_def NewRecipe_def AddFood_def RemoveFood_def
        AssertConsistency_def Let_def tenGrams_def firstRecipe_def melon_def water_def)
  have q2: "quantitiesAt st2 (foodQuantities ?copy) = Map.empty"
    by (simp add: st2_def st1_def Clone_def NewRecipe_def AddFood_def RemoveFood_def
        AssertConsistency_def Let_def tenGrams_def firstRecipe_def melon_def water_def)
  from Clone_independent [OF alloc cl] run
  have "quantitiesAt st2 (foodQuantities firstRecipe) = quantitiesAt tenGrams (foodQuantities firstRecipe)"
    and "totalsAt st2 (nutrientTotals firstRecipe) = totalsAt tenGrams (nutrientTotals firstRecipe)"
    by blast+
  then have orig: "quantitiesAt st2 (foodQuantities firstRecipe) = [9326 \<mapsto> 10]"
    "totalsAt st2 (nutrientTotals firstRecipe) = [255 \<mapsto> 10]"
    by (simp_all add: tenGrams_def firstRecipe_def)
  from alloc cl run q1 q2 orig show ?thesis by simp
qed

subsection \<open>C8: the score of the new recipe\<close>

text \<open>
  C8. The recipe \<^verbatim>\<open>NewRecipe\<close> makes has no quantities and reads 0 for every nutrient
  total. Its score is the sum of \<open>penalty(0, min, max)\<close> over the target table: each of
  the 39 entries has \<open>min > 0\<close> and gives 100, and so do the phenylalanine and tyrosine
  entry and the folate entry, 4100 for the 41 entries; the caffeine term, the
  dihydrophylloquinone term, the penalty for the number of foods and the penalty for the
  mass are 0.
\<close>

theorem empty_recipe_score:
  "\<exists>st0 recipe. NewRecipe allFoods allNutrients st = Inr (st0, recipe)
     \<and> quantitiesAt st0 (foodQuantities recipe) = Map.empty
     \<and> (\<forall>n. readFloat (totalsAt st0 (nutrientTotals recipe)) n = 0)
     \<and> targetPenalties st0 recipe nutrientNameToId
          = map (\<lambda>(nutrientName, minimum, maximum). calcPenalty 0 minimum maximum) targets
     \<and> targetPenalties st0 recipe nutrientNameToId = replicate 39 100
     \<and> list_all (\<lambda>(nutrientName, minimum, maximum). 0 < minimum) targets
     \<and> length targets = 39
     \<and> phenylalanineTyrosinePenalty st0 recipe nutrientNameToId = calcPenalty 0 1.625 0
     \<and> phenylalanineTyrosinePenalty st0 recipe nutrientNameToId = 100
     \<and> folatePenalty st0 recipe nutrientNameToId = calcPenalty 0 400 1000
     \<and> folatePenalty st0 recipe nutrientNameToId = 100
     \<and> caffeinePenalty st0 recipe nutrientNameToId = 0
     \<and> dihydrophylloquinonePenalty st0 recipe nutrientNameToId = 0
     \<and> numFoodsPenalty st0 recipe = 0
     \<and> massPenalty st0 recipe = 0
     \<and> Score allNutrients allFoods nutrientNameToId st0 recipe = Inr 4100"
proof -
  obtain st0 recipe where new: "NewRecipe allFoods allNutrients st = Inr (st0, recipe)"
    by (simp add: NewRecipe_def AssertConsistency_def Let_def)
  note zero = readFloat_NewRecipe(1) [OF new] and none = readFloat_NewRecipe(2) [OF new]
  have zero': "(case totalsAt st0 (nutrientTotals recipe) n of Some v \<Rightarrow> v | None \<Rightarrow> 0) = 0" for n
    using zero [of n] by (simp add: readFloat_def split: option.splits)
  have t1: "targetPenalties st0 recipe nutrientNameToId
          = map (\<lambda>(nutrientName, minimum, maximum). calcPenalty 0 minimum maximum) targets"
    by (simp add: targetPenalties_def calculatePenaltyForNutrient_def zero Let_def)
  have t2: "map (\<lambda>(nutrientName, minimum, maximum). calcPenalty 0 minimum maximum) targets
          = replicate 39 100"
    by (simp add: targets_def calcPenalty_nothing numeral_eq_Suc)
  have t3: "list_all (\<lambda>(nutrientName, minimum, maximum). 0 < minimum) targets"
    by (simp add: targets_def)
  have t4: "length targets = 39"
    by (simp add: targets_def)
  have p: "phenylalanineTyrosinePenalty st0 recipe nutrientNameToId = calcPenalty 0 1.625 0"
    by (simp add: phenylalanineTyrosinePenalty_def Let_def zero')
  have f: "folatePenalty st0 recipe nutrientNameToId = calcPenalty 0 400 1000"
    by (simp add: folatePenalty_def Let_def zero)
  have c: "caffeinePenalty st0 recipe nutrientNameToId = 0"
    by (simp add: caffeinePenalty_def Let_def zero)
  have d: "dihydrophylloquinonePenalty st0 recipe nutrientNameToId = 0"
    by (simp add: dihydrophylloquinonePenalty_def zero)
  have n: "numFoodsPenalty st0 recipe = 0"
    by (simp add: numFoodsPenalty_def none)
  have m: "massPenalty st0 recipe = 0"
    by (simp add: massPenalty_def none)
  have s39: "sum_list (replicate 39 (100::real)) = 3900"
    by (simp add: sum_list_replicate)
  have total: "Score allNutrients allFoods nutrientNameToId st0 recipe = Inr 4100"
    by (simp add: Score_def AssertConsistency_def t1 t2 s39 p f c d n m calcPenalty_nothing)
  from new none zero t1 t2 t3 t4 p f c d n m total show ?thesis
    by (simp add: calcPenalty_nothing)
qed

subsection \<open>C9: the consistency check\<close>

text \<open>
  C9, as amended. AssertConsistency as built runs nothing: its body is commented out.
  It recomputes no total and raises no fault; it passes for every recipe, whether or
  not the cached totals agree with the sum over the quantities.
\<close>

theorem AssertConsistency_never_panics:
  "AssertConsistency allFoods st recipe = Inr ()"
  by (simp add: AssertConsistency_def)

text \<open>
  C9 as stated fails: after 9223372036854775807 g of melon and 1 g more, the cached
  total of water and the sum over the quantities differ by \<open>2 ^ 64\<close>, far more than
  0.5; both additions returned, and the check on the final recipe passes.
\<close>

theorem AssertConsistency_counterexample:
  "(case bindP (NewRecipe [9326 \<mapsto> melon] [255 \<mapsto> water] emptyStore)
          (\<lambda>(st0, recipe). bindP (mutateAll [9326 \<mapsto> melon] st0 recipe
                              [Add melon 9223372036854775807, Add melon 1])
          (\<lambda>st1. Inr (\<bar>readFloat (totalsAt st1 (nutrientTotals recipe)) 255
                        - sumOverQuantities [9326 \<mapsto> melon] (quantitiesAt st1 (foodQuantities recipe)) 255\<bar>,
                       AssertConsistency [9326 \<mapsto> melon] st1 recipe))) of
      Inr r \<Rightarrow> 0.5 < fst r \<and> snd r = Inr ()
    | Inl e \<Rightarrow> False)"
  by (simp add: example_defs)

subsection \<open>The trials of the search within \<open>2 ^ 63 div 5\<close> rounds\<close>

text \<open>
  A bounded result on the way to C10; C10 itself, for a search of any length, is left
  open. Start from the recipe \<^verbatim>\<open>NewRecipe\<close> makes and let the search run for a number of
  rounds \<open>n\<close> with \<open>5 * n < 2 ^ 63\<close>. Then it does not panic, and every quantity of its
  best recipe is a multiple of the step size 5, at least 5 and at most \<open>5 * n\<close>. In any
  working recipe whose quantities are such multiples, at most \<open>b\<close> with
  \<open>b + 5 < 2 ^ 63\<close>, the trial removal with its undo and the trial addition with its
  undo both return, leave the quantities of the working recipe as they were, and keep
  the candidate of the round step-sized. The bound is where one more step would no
  longer fit an \<^verbatim>\<open>int\<close>: a round moves a quantity by one step, so a quantity of the best
  recipe after \<open>n\<close> rounds is at most \<open>5 * n\<close>. Whether the search can improve its score
  for that many rounds depends on the rounding of \<^verbatim>\<open>float64\<close>, which the scores in
  \<^typ>\<open>real\<close> used here do not show; so nothing is claimed beyond the bound.
\<close>

theorem search_keeps_step_sized:
  assumes "NewRecipe allFoods allNutrients st = Inr (st0, bestRecipeEver)"
      and "5 * int (length rounds) < 2 ^ 63"
  shows "safeOutcome (5 * int (length rounds))
           (snd (mainLoop allNutrients allFoods nutrientNameToId rounds st0 bestRecipeEver bestScoreEver))
       \<and> (\<forall>st1 cur best s b food.
             allocated st1 cur \<and> stepSized b (quantitiesAt st1 (foodQuantities cur))
               \<and> candidateOK (b + 5) cur st1 best \<and> 0 \<le> b \<and> b + 5 < 2 ^ 63 \<longrightarrow>
             (\<exists>st2 best2 s2.
                tryRemoving allNutrients allFoods nutrientNameToId cur food (st1, best, s) = Inr (st2, best2, s2)
                \<and> quantitiesAt st2 (foodQuantities cur) = quantitiesAt st1 (foodQuantities cur)
                \<and> candidateOK (b + 5) cur st2 best2)
             \<and> (\<exists>st2 best2 s2.
                tryAdding allNutrients allFoods nutrientNameToId cur food (st1, best, s) = Inr (st2, best2, s2)
                \<and> quantitiesAt st2 (foodQuantities cur) = quantitiesAt st1 (foodQuantities cur)
                \<and> candidateOK (b + 5) cur st2 best2))"
proof -
  have loop: "safeOutcome (5 * int (length rounds))
           (snd (mainLoop allNutrients allFoods nutrientNameToId rounds st0 bestRecipeEver bestScoreEver))"
    using mainLoop_safe [OF NewRecipe_ready [OF assms(1)], of rounds] assms(2) by simp
  have trials: "(\<exists>st2 best2 s2.
                tryRemoving allNutrients allFoods nutrientNameToId cur food (st1, best, s) = Inr (st2, best2, s2)
                \<and> quantitiesAt st2 (foodQuantities cur) = quantitiesAt st1 (foodQuantities cur)
                \<and> candidateOK (b + 5) cur st2 best2)
             \<and> (\<exists>st2 best2 s2.
                tryAdding allNutrients allFoods nutrientNameToId cur food (st1, best, s) = Inr (st2, best2, s2)
                \<and> quantitiesAt st2 (foodQuantities cur) = quantitiesAt st1 (foodQuantities cur)
                \<and> candidateOK (b + 5) cur st2 best2)"
    if "allocated st1 cur" "stepSized b (quantitiesAt st1 (foodQuantities cur))"
       "candidateOK (b + 5) cur st1 best" "0 \<le> b" "b + 5 < 2 ^ 63"
    for st1 cur best s b food
    using tryRemoving_safe [OF that(1) that(2) that(3), of allNutrients allFoods nutrientNameToId food s]
          tryAdding_safe [OF that, of allNutrients allFoods nutrientNameToId food s]
    by blast
  from loop trials show ?thesis by blast
qed

theorem search_keeps_step_sized_witness:
  "(case snd (mainLoop [255 \<mapsto> water] [9326 \<mapsto> melon] [''Water'' \<mapsto> 255] [[melon]] afterNew firstRecipe 4100) of
      OutOfRounds st2 r s \<Rightarrow>
        quantitiesAt st2 (foodQuantities r) = [9326 \<mapsto> 5]
        \<and> stepSized 5 (quantitiesAt st2 (foodQuantities r))
    | Panicked e \<Rightarrow> False
    | LocalMaxima st2 r s \<Rightarrow> False
    | ScoreNotPositive st2 r s \<Rightarrow> False)
   \<and> (case tryAdding [255 \<mapsto> water] [9326 \<mapsto> melon] [''Water'' \<mapsto> 255] firstRecipe melon
              (tenGrams, None, 5000) of
        Inr (st2, best2, s2) \<Rightarrow> quantitiesAt st2 (foodQuantities firstRecipe) = [9326 \<mapsto> 10]
      | Inl e \<Rightarrow> False)
   \<and> (case tryRemoving [255 \<mapsto> water] [9326 \<mapsto> melon] [''Water'' \<mapsto> 255] firstRecipe melon
              (tenGrams, None, 5000) of
        Inr (st2, best2, s2) \<Rightarrow> quantitiesAt st2 (foodQuantities firstRecipe) = [9326 \<mapsto> 10]
      | Inl e \<Rightarrow> False)"
proof -
  let ?nutr = "[255 \<mapsto> water]" and ?cat = "[9326 \<mapsto> melon]" and ?names = "[''Water'' \<mapsto> 255]"
  obtain st2 s where
    r: "searchRound ?nutr ?cat ?names [melon] afterNew firstRecipe 4100
       = Inr (st2, Some (\<lparr>nutrientTotals = 4, foodQuantities = 5\<rparr>, s))"
    and q: "quantitiesAt st2 5 = [9326 \<mapsto> 5]" and s: "s * 28380 = 116346311"
    using round_outcome by (elim exE conjE)
  from s have "s = 116346311 / 28380" by simp
  then have pos: "0 < s" by simp
  have out: "snd (mainLoop ?nutr ?cat ?names [[melon]] afterNew firstRecipe 4100)
      = OutOfRounds st2 \<lparr>nutrientTotals = 4, foodQuantities = 5\<rparr> s"
    by (simp add: r pos)
  have len: "5 * int (length [[melon]]) < 2 ^ 63" by simp
  note inst = search_keeps_step_sized [OF NewRecipe_example len, of ?names 4100]
  from inst [THEN conjunct1] have "stepSized 5 (quantitiesAt st2 5)"
    by (simp only: out safeOutcome.simps Recipe.simps list.size) simp
  with q have first: "(case snd (mainLoop ?nutr ?cat ?names [[melon]] afterNew firstRecipe 4100) of
      OutOfRounds st2 r s \<Rightarrow>
        quantitiesAt st2 (foodQuantities r) = [9326 \<mapsto> 5]
        \<and> stepSized 5 (quantitiesAt st2 (foodQuantities r))
    | Panicked e \<Rightarrow> False
    | LocalMaxima st2 r s \<Rightarrow> False
    | ScoreNotPositive st2 r s \<Rightarrow> False)"
    by (simp only: out outcome.case Recipe.simps simp_thms)
  have ready: "allocated tenGrams firstRecipe
      \<and> stepSized 10 (quantitiesAt tenGrams (foodQuantities firstRecipe))
      \<and> candidateOK (10 + 5) firstRecipe tenGrams None \<and> (0::int) \<le> 10 \<and> (10::int) + 5 < 2 ^ 63"
    by (simp add: allocated_def tenGrams_def firstRecipe_def stepSized_def STEPSIZE_def candidateOK_def)
  have ten: "quantitiesAt tenGrams (foodQuantities firstRecipe) = [9326 \<mapsto> 10]"
    by (simp add: tenGrams_def firstRecipe_def)
  note trials = inst [THEN conjunct2, rule_format, OF ready, where s = 5000 and food = melon]
  from trials [THEN conjunct1] obtain sa ba xa where
    a: "tryRemoving ?nutr ?cat ?names firstRecipe melon (tenGrams, None, 5000) = Inr (sa, ba, xa)"
    and qa: "quantitiesAt sa (foodQuantities firstRecipe) = quantitiesAt tenGrams (foodQuantities firstRecipe)"
    by (elim exE conjE)
  from trials [THEN conjunct2] obtain sb bb xb where
    b: "tryAdding ?nutr ?cat ?names firstRecipe melon (tenGrams, None, 5000) = Inr (sb, bb, xb)"
    and qb: "quantitiesAt sb (foodQuantities firstRecipe) = quantitiesAt tenGrams (foodQuantities firstRecipe)"
    by (elim exE conjE)
  have second: "(case tryAdding ?nutr ?cat ?names firstRecipe melon (tenGrams, None, 5000) of
        Inr (st2, best2, s2) \<Rightarrow> quantitiesAt st2 (foodQuantities firstRecipe) = [9326 \<mapsto> 10]
      | Inl e \<Rightarrow> False)"
    by (simp only: b sum.case prod.case qb ten)
  have third: "(case tryRemoving ?nutr ?cat ?names firstRecipe melon (tenGrams, None, 5000) of
        Inr (st2, best2, s2) \<Rightarrow> quantitiesAt st2 (foodQuantities firstRecipe) = [9326 \<mapsto> 10]
      | Inl e \<Rightarrow> False)"
    by (simp only: a sum.case prod.case qa ten)
  from first second third show ?thesis by (intro conjI)
qed

end
